theory Spec2Isabelle
  imports Complex_Main
begin

section \<open>Conventions\<close>

text \<open>
  The development embeds the notebook \<^verbatim>\<open>transformer_tutorial_from_pytorch.ipynb\<close>:
  the batching helpers \<^verbatim>\<open>batchify\<close> and \<^verbatim>\<open>get_batch\<close>, the causal mask and its cache in
  \<^verbatim>\<open>TransformerModel\<close>, the table of \<^verbatim>\<open>PositionalEncoding\<close>, and the procedures
  \<^verbatim>\<open>train\<close>, \<^verbatim>\<open>evaluate\<close> and the loop over epochs.

  \<^item> A two-dimensional tensor is a record of its shape and of its entries in row-major
    (contiguous) order. Shapes are natural numbers; Python integers that the code computes
    with (\<^verbatim>\<open>bsz\<close>, \<^verbatim>\<open>bptt\<close>, \<^verbatim>\<open>i\<close>, \<^verbatim>\<open>epoch\<close>, \<^verbatim>\<open>log_interval\<close>) are \<open>int\<close>.
  \<^item> A Python exception is a value of \<open>error\<close>; a procedure that prints returns, when it
    raises, the exception together with the lines printed so far.
  \<^item> A Python float is a \<open>pyfloat\<close>: a real number, \<open>+inf\<close>, \<open>-inf\<close> or \<open>nan\<close>. Finite floats
    are idealised as reals, so rounding is not modelled, and neither is the overflow of a
    sum, product or quotient; the propagation of \<open>inf\<close> and \<open>nan\<close> and the comparisons with
    them are as in IEEE 754. \<^verbatim>\<open>math.exp\<close> raises \<^verbatim>\<open>OverflowError\<close> as Python's does.
  \<^item> The layers of \<^verbatim>\<open>torch.nn\<close>, the loss and the optimiser's update rule are library
    code: they are parameters of the model, collected in the record \<open>torch\<close>.
  \<^item> The model object lives in a store (\<open>heap\<close>); the global names \<^verbatim>\<open>model\<close> and
    \<^verbatim>\<open>best_model\<close> hold addresses, as Python names hold references.
\<close>

section \<open>Tensors\<close>

datatype error = ZeroDivisionError | ValueError | RuntimeError | AttributeError | OverflowError

record 'a tensor =
  rows :: nat
  cols :: nat
  elems :: "'a list"

text \<open>The entries of a tensor fill its shape.\<close>

definition well_formed :: "'a tensor \<Rightarrow> bool" where
  "well_formed T \<longleftrightarrow> length (elems T) = rows T * cols T"

text \<open>\<^verbatim>\<open>T[i, j]\<close> of a contiguous tensor.\<close>

definition entry :: "'a tensor \<Rightarrow> nat \<Rightarrow> nat \<Rightarrow> 'a" where
  "entry T i j = elems T ! (i * cols T + j)"

text \<open>The contiguous tensor of shape \<open>(r, c)\<close> whose entry \<open>(i, j)\<close> is \<open>f i j\<close>.\<close>

definition tabulate :: "nat \<Rightarrow> nat \<Rightarrow> (nat \<Rightarrow> nat \<Rightarrow> 'a) \<Rightarrow> 'a tensor" where
  "tabulate r c f = \<lparr>rows = r, cols = c, elems = concat (map (\<lambda>i. map (f i) [0..<c]) [0..<r])\<rparr>"

text \<open>
  \<^verbatim>\<open>TEXT.numericalize([data.examples[0].text])\<close>: the token ids of the corpus as a tensor of
  shape \<open>(L, 1)\<close>. The vocabulary lookup belongs to torchtext; the argument here is the
  sequence of ids it yields.
\<close>

definition numericalize :: "int list \<Rightarrow> int tensor" where
  "numericalize text = \<lparr>rows = length text, cols = 1, elems = text\<rparr>"

text \<open>\<^verbatim>\<open>T.narrow(0, start, length)\<close>: \<open>length\<close> rows from row \<open>start\<close>; out of range raises.\<close>

definition narrow :: "'a tensor \<Rightarrow> int \<Rightarrow> int \<Rightarrow> error + 'a tensor" where
  "narrow T start len =
     (if start < 0 \<or> len < 0 \<or> int (rows T) < start + len then Inl RuntimeError
      else Inr \<lparr>rows = nat len, cols = cols T,
                elems = take (nat len * cols T) (drop (nat start * cols T) (elems T))\<rparr>)"

text \<open>
  \<^verbatim>\<open>T.view(r, -1)\<close>: the same entries read as \<open>r\<close> rows. A row count that is not positive, or
  that does not divide the number of entries, raises.
\<close>

definition view_rows :: "'a tensor \<Rightarrow> int \<Rightarrow> error + 'a tensor" where
  "view_rows T r =
     (let numel = rows T * cols T in
      if r \<le> 0 then Inl RuntimeError
      else if numel mod nat r \<noteq> 0 then Inl RuntimeError
      else Inr \<lparr>rows = nat r, cols = numel div nat r, elems = elems T\<rparr>)"

text \<open>
  \<^verbatim>\<open>T.t().contiguous()\<close> and \<^verbatim>\<open>T.transpose(0, 1)\<close>: the transposed tensor, laid out
  contiguously again.
\<close>

definition transpose01 :: "'a tensor \<Rightarrow> 'a tensor" where
  "transpose01 T = tabulate (cols T) (rows T) (\<lambda>i j. entry T j i)"

text \<open>
  Slicing along dimension 0, \<^verbatim>\<open>T[a:b]\<close>: a negative bound counts from the end, bounds are
  clamped to the number of rows, and an empty range gives no rows.
\<close>

definition slice_index :: "nat \<Rightarrow> int \<Rightarrow> nat" where
  "slice_index n k = (if k < 0 then nat (max 0 (k + int n)) else min (nat k) n)"

definition slice_rows :: "'a tensor \<Rightarrow> int \<Rightarrow> int \<Rightarrow> 'a tensor" where
  "slice_rows T a b =
     (let lo = slice_index (rows T) a;
          hi = max lo (slice_index (rows T) b)
      in \<lparr>rows = hi - lo, cols = cols T,
          elems = take ((hi - lo) * cols T) (drop (lo * cols T) (elems T))\<rparr>)"

text \<open>\<^verbatim>\<open>T.view(-1)\<close>: the entries of a contiguous tensor in order.\<close>

definition view_flat :: "'a tensor \<Rightarrow> 'a list" where
  "view_flat T = elems T"

text \<open>
  \<^verbatim>\<open>range(start, stop, step)\<close> as a list; a zero step raises \<^verbatim>\<open>ValueError\<close>.
\<close>

definition py_range :: "int \<Rightarrow> int \<Rightarrow> int \<Rightarrow> error + int list" where
  "py_range start stop step =
     (if step = 0 then Inl ValueError
      else if 0 < step then
        Inr (map (\<lambda>k. start + int k * step) [0..<nat ((stop - start + step - 1) div step)])
      else
        Inr (map (\<lambda>k. start + int k * step) [0..<nat ((start - stop - step - 1) div (- step))]))"

text \<open>\<^verbatim>\<open>torch.arange(start, stop, step)\<close> for natural bounds and a positive step.\<close>

definition arange :: "nat \<Rightarrow> nat \<Rightarrow> nat \<Rightarrow> nat list" where
  "arange start stop step = map (\<lambda>k. start + k * step) [0..<(stop - start + step - 1) div step]"

section \<open>Batching\<close>

text \<open>
  \<^verbatim>\<open>
  def batchify(data, bsz):
      data = TEXT.numericalize([data.examples[0].text])
      nbatch = data.size(0) // bsz
      data = data.narrow(0, 0, nbatch * bsz)
      data = data.view(bsz, -1).t().contiguous()
      return data.to(device)
  \<close>
  Python's \<^verbatim>\<open>//\<close> is floor division, as \<open>div\<close> on \<open>int\<close> is, and raises on a zero divisor.
\<close>

definition batchify :: "int list \<Rightarrow> int \<Rightarrow> error + int tensor" where
  "batchify text bsz =
     (let data = numericalize text in
      if bsz = 0 then Inl ZeroDivisionError
      else
        let nbatch = int (rows data) div bsz in
        case narrow data 0 (nbatch * bsz) of
          Inl e \<Rightarrow> Inl e
        | Inr data1 \<Rightarrow>
            (case view_rows data1 bsz of
               Inl e \<Rightarrow> Inl e
             | Inr data2 \<Rightarrow> Inr (transpose01 data2)))"

text \<open>
  \<^verbatim>\<open>
  def get_batch(source, i):
      seq_len = min(bptt, len(source) - 1 - i)
      data = source[i:i+seq_len]
      target = source[i+1:i+1+seq_len].view(-1)
      return data, target
  \<close>
  The global \<^verbatim>\<open>bptt\<close> (35 in the notebook) is the first argument.
\<close>

definition get_batch :: "int \<Rightarrow> 'a tensor \<Rightarrow> int \<Rightarrow> 'a tensor \<times> 'a list" where
  "get_batch bptt source i =
     (let seq_len = min bptt (int (rows source) - 1 - i);
          data = slice_rows source i (i + seq_len);
          target = view_flat (slice_rows source (i + 1) (i + 1 + seq_len))
      in (data, target))"

section \<open>Floats\<close>

datatype pyfloat = Fin real | PInf | NInf | NaN

text \<open>Float addition: \<open>nan\<close> absorbs, and \<open>inf + -inf\<close> is \<open>nan\<close>.\<close>

fun fadd :: "pyfloat \<Rightarrow> pyfloat \<Rightarrow> pyfloat" where
  "fadd (Fin a) (Fin b) = Fin (a + b)"
| "fadd NaN y = NaN"
| "fadd x NaN = NaN"
| "fadd PInf NInf = NaN"
| "fadd NInf PInf = NaN"
| "fadd PInf y = PInf"
| "fadd x PInf = PInf"
| "fadd NInf y = NInf"
| "fadd x NInf = NInf"

text \<open>The product \<^verbatim>\<open>n * x\<close> of a Python integer and a float.\<close>

fun fmul_int :: "int \<Rightarrow> pyfloat \<Rightarrow> pyfloat" where
  "fmul_int n (Fin a) = Fin (real_of_int n * a)"
| "fmul_int n PInf = (if 0 < n then PInf else if n < 0 then NInf else NaN)"
| "fmul_int n NInf = (if 0 < n then NInf else if n < 0 then PInf else NaN)"
| "fmul_int n NaN = NaN"

text \<open>
  The quotient \<^verbatim>\<open>x / n\<close> of a float by a Python integer: Python raises
  \<^verbatim>\<open>ZeroDivisionError\<close> when \<open>n\<close> is zero.
\<close>

fun fdiv_int :: "pyfloat \<Rightarrow> int \<Rightarrow> pyfloat" where
  "fdiv_int (Fin a) n = Fin (a / real_of_int n)"
| "fdiv_int PInf n = (if 0 < n then PInf else NInf)"
| "fdiv_int NInf n = (if 0 < n then NInf else PInf)"
| "fdiv_int NaN n = NaN"

definition py_truediv :: "pyfloat \<Rightarrow> int \<Rightarrow> error + pyfloat" where
  "py_truediv x n = (if n = 0 then Inl ZeroDivisionError else Inr (fdiv_int x n))"

text \<open>The comparison \<^verbatim>\<open>x < y\<close> of floats: false whenever an operand is \<open>nan\<close>.\<close>

fun flt :: "pyfloat \<Rightarrow> pyfloat \<Rightarrow> bool" where
  "flt (Fin a) (Fin b) = (a < b)"
| "flt NaN y = False"
| "flt x NaN = False"
| "flt x NInf = False"
| "flt PInf y = False"
| "flt NInf y = True"
| "flt x PInf = True"

text \<open>
  \<^verbatim>\<open>math.exp\<close>. For a finite argument whose exponential exceeds the largest finite double,
  \<open>(2 ^ 53 - 1) * 2 ^ 971\<close>, Python raises \<^verbatim>\<open>OverflowError\<close> (from about \<open>709.78\<close> on);
  \<^verbatim>\<open>math.exp(inf)\<close> is \<open>inf\<close>, \<^verbatim>\<open>math.exp(-inf)\<close> is \<open>0.0\<close> and \<^verbatim>\<open>math.exp(nan)\<close> is \<open>nan\<close>.
\<close>

definition float_max :: real where
  "float_max = (2 ^ 53 - 1) * 2 ^ 971"

fun math_exp :: "pyfloat \<Rightarrow> error + pyfloat" where
  "math_exp (Fin a) = (if float_max < exp a then Inl OverflowError else Inr (Fin (exp a)))"
| "math_exp PInf = Inr PInf"
| "math_exp NInf = Inr (Fin 0)"
| "math_exp NaN = Inr NaN"

section \<open>The model object\<close>

text \<open>
  The state of a \<^verbatim>\<open>TransformerModel\<close>: its trainable parameters (\<^verbatim>\<open>model.parameters()\<close>, of
  an abstract type), the buffer \<^verbatim>\<open>pos_encoder.pe\<close>, the attribute \<^verbatim>\<open>src_mask\<close> and the
  mode flag that \<^verbatim>\<open>train()\<close> and \<^verbatim>\<open>eval()\<close> set.
\<close>

record 'p TransformerModel =
  params :: 'p
  pe :: "real tensor"
  src_mask :: "pyfloat tensor option"
  training :: bool

subsection \<open>The causal mask\<close>

text \<open>\<^verbatim>\<open>torch.ones(r, c)\<close>.\<close>

definition ones :: "nat \<Rightarrow> nat \<Rightarrow> pyfloat tensor" where
  "ones r c = tabulate r c (\<lambda>i j. Fin 1)"

text \<open>\<^verbatim>\<open>torch.triu(T)\<close>: the entries on and above the diagonal, zero below it.\<close>

definition triu :: "pyfloat tensor \<Rightarrow> pyfloat tensor" where
  "triu T = tabulate (rows T) (cols T) (\<lambda>i j. if i \<le> j then entry T i j else Fin 0)"

text \<open>
  \<^verbatim>\<open>T == v\<close>, entry by entry. On a tensor of booleans, \<^verbatim>\<open>T == 0\<close> is the comparison with
  \<open>False\<close> and \<^verbatim>\<open>T == 1\<close> the comparison with \<open>True\<close>.
\<close>

definition eq_scalar :: "'a tensor \<Rightarrow> 'a \<Rightarrow> bool tensor" where
  "eq_scalar T v = tabulate (rows T) (cols T) (\<lambda>i j. entry T i j = v)"

text \<open>\<^verbatim>\<open>T.float()\<close> of a tensor of booleans.\<close>

definition to_float :: "bool tensor \<Rightarrow> pyfloat tensor" where
  "to_float T = tabulate (rows T) (cols T) (\<lambda>i j. if entry T i j then Fin 1 else Fin 0)"

text \<open>\<^verbatim>\<open>T.masked_fill(M, v)\<close>.\<close>

definition masked_fill :: "'a tensor \<Rightarrow> bool tensor \<Rightarrow> 'a \<Rightarrow> 'a tensor" where
  "masked_fill T M v = tabulate (rows T) (cols T) (\<lambda>i j. if entry M i j then v else entry T i j)"

text \<open>
  \<^verbatim>\<open>
  def _generate_square_subsequent_mask(self, sz):
      mask = (torch.triu(torch.ones(sz, sz)) == 1).transpose(0, 1)
      mask = mask.float().masked_fill(mask == 0, float('-inf')).masked_fill(mask == 1, float(0.0))
      return mask
  \<close>
\<close>

definition generate_square_subsequent_mask :: "'p TransformerModel \<Rightarrow> nat \<Rightarrow> pyfloat tensor" where
  "generate_square_subsequent_mask self sz =
     (let mask = transpose01 (eq_scalar (triu (ones sz sz)) (Fin 1)) in
      masked_fill (masked_fill (to_float mask) (eq_scalar mask False) NInf)
        (eq_scalar mask True) (Fin 0))"

subsection \<open>The positional encoding table\<close>

text \<open>
  \<^verbatim>\<open>
  def __init__(self, d_model, dropout=0.1, max_len=5000):
      pe = torch.zeros(max_len, d_model)
      position = torch.arange(0, max_len, dtype=torch.float).unsqueeze(1)
      div_term = torch.exp(torch.arange(0, d_model, 2).float() * (-math.log(10000.0) / d_model))
      pe[:, 0::2] = torch.sin(position * div_term)
      pe[:, 1::2] = torch.cos(position * div_term)
      pe = pe.unsqueeze(0).transpose(0, 1)
      self.register_buffer('pe', pe)
  \<close>
  The table is kept with its two axes \<open>(max_len, d_model)\<close>; the axis of length one that
  \<^verbatim>\<open>unsqueeze\<close> adds only serves broadcasting over the batch. Its entries are reals.
  The division by \<^verbatim>\<open>d_model\<close> raises when \<^verbatim>\<open>d_model\<close> is zero. The second assignment raises
  when the \<open>d_model div 2\<close> odd columns cannot take the columns of \<^verbatim>\<open>position * div_term\<close>:
  their numbers differ and the source does not have the single column that broadcasts.
\<close>

definition PositionalEncoding_init :: "nat \<Rightarrow> nat \<Rightarrow> error + real tensor" where
  "PositionalEncoding_init d_model max_len =
     (if d_model = 0 then Inl ZeroDivisionError
      else
        let pe0 = tabulate max_len d_model (\<lambda>p j. 0);
            position = map real (arange 0 max_len 1);
            div_term = map (\<lambda>k. exp (real k * (- ln 10000 / real d_model))) (arange 0 d_model 2);
            pe1 = tabulate max_len d_model
                    (\<lambda>p j. if even j then sin (position ! p * div_term ! (j div 2)) else entry pe0 p j)
        in if length div_term \<noteq> d_model div 2 \<and> length div_term \<noteq> 1 then Inl RuntimeError
           else Inr (tabulate max_len d_model
                    (\<lambda>p j. if odd j then cos (position ! p * div_term ! (j div 2)) else entry pe1 p j)))"

subsection \<open>Construction and the forward pass\<close>

text \<open>
  The library operations the notebook calls, as parameters:
  \<^item> \<open>net\<close>: lines 128 to 135 of \<^verbatim>\<open>forward\<close> (embedding scaled by \<^verbatim>\<open>sqrt(ninp)\<close>, positional
    encoder with dropout, \<^verbatim>\<open>transformer_encoder\<close>, \<^verbatim>\<open>decoder\<close>, \<^verbatim>\<open>log_softmax\<close>), a function of
    the parameters, the buffer \<^verbatim>\<open>pe\<close>, the mode flag, the gradient mode, the state of the
    random generator, the mask and the input;
  \<^item> \<open>rng_next\<close>: the state of the random generator after the dropout layers drew from it,
    which they do in training mode only;
  \<^item> \<open>criterion\<close>: the value \<^verbatim>\<open>criterion(output.view(-1, ntokens), targets).item()\<close>;
  \<^item> \<open>sgd_update\<close>: the parameters after \<^verbatim>\<open>optimizer.zero_grad()\<close>, \<^verbatim>\<open>loss.backward()\<close>,
    \<^verbatim>\<open>clip_grad_norm_(model.parameters(), 0.5)\<close> and \<^verbatim>\<open>optimizer.step()\<close> at a given
    learning rate.
\<close>

record ('p, 'o, 'r) torch =
  net :: "'p \<Rightarrow> real tensor \<Rightarrow> bool \<Rightarrow> bool \<Rightarrow> 'r \<Rightarrow> pyfloat tensor \<Rightarrow> int tensor \<Rightarrow> 'o"
  rng_next :: "'r \<Rightarrow> int tensor \<Rightarrow> 'r"
  criterion :: "'o \<Rightarrow> int list \<Rightarrow> pyfloat"
  sgd_update :: "real \<Rightarrow> 'p \<Rightarrow> 'o \<Rightarrow> int list \<Rightarrow> 'p"

text \<open>
  \<^verbatim>\<open>
  def __init__(self, ntoken, ninp, nhead, nhid, nlayers, dropout=0.5):
      self.src_mask = None
      self.pos_encoder = PositionalEncoding(ninp, dropout)
      encoder_layers = TransformerEncoderLayer(ninp, nhead, nhid, dropout)
      self.transformer_encoder = TransformerEncoder(encoder_layers, nlayers)
      self.encoder = nn.Embedding(ntoken, ninp)
      self.decoder = nn.Linear(ninp, ntoken)
      self.init_weights()
  \<close>
  The positional encoder is built first, with the default \<^verbatim>\<open>max_len=5000\<close>. What the
  constructors of \<^verbatim>\<open>torch.nn\<close> and \<^verbatim>\<open>init_weights\<close> then yield, the initial weights or an
  exception, is the argument \<open>layers\<close>. A new module is in training mode.
\<close>

definition TransformerModel_init :: "error + 'p \<Rightarrow> nat \<Rightarrow> error + 'p TransformerModel" where
  "TransformerModel_init layers ninp =
     (case PositionalEncoding_init ninp 5000 of
        Inl e \<Rightarrow> Inl e
      | Inr table \<Rightarrow>
          (case layers of
             Inl e \<Rightarrow> Inl e
           | Inr weights \<Rightarrow>
               Inr \<lparr>params = weights, pe = table, src_mask = None, training = True\<rparr>))"

text \<open>
  \<^verbatim>\<open>
  def forward(self, src):
      if self.src_mask is None or self.src_mask.size(0) != len(src):
          device = src.device
          mask = self._generate_square_subsequent_mask(len(src)).to(device)
          self.src_mask = mask
      src = self.encoder(src) * math.sqrt(self.ninp)
      src = self.pos_encoder(src)
      output = self.transformer_encoder(src, self.src_mask)
      output = self.decoder(output)
      return F.log_softmax(output, dim=-1)
  \<close>
  The result is the output together with the object after the call.
\<close>

definition forward ::
  "('p, 'o, 'r) torch \<Rightarrow> bool \<Rightarrow> 'r \<Rightarrow> 'p TransformerModel \<Rightarrow> int tensor \<Rightarrow> 'o \<times> 'p TransformerModel" where
  "forward ops grad g self src =
     (let refreshed = self\<lparr>src_mask := Some (generate_square_subsequent_mask self (rows src))\<rparr>;
          self1 = (case src_mask self of
                     None \<Rightarrow> refreshed
                   | Some m \<Rightarrow> if rows m \<noteq> rows src then refreshed else self)
      in (net ops (params self1) (pe self1) (training self1) grad g (the (src_mask self1)) src, self1))"

text \<open>
  A sequence of \<^verbatim>\<open>forward\<close> calls on one object, and the sequence lengths of those calls
  among them that took the branch assigning \<^verbatim>\<open>self.src_mask\<close>.
\<close>

fun forward_calls ::
  "('p, 'o, 'r) torch \<Rightarrow> bool \<Rightarrow> 'r \<Rightarrow> 'p TransformerModel \<Rightarrow> int tensor list \<Rightarrow> 'p TransformerModel" where
  "forward_calls ops grad g self [] = self"
| "forward_calls ops grad g self (src # srcs) =
     forward_calls ops grad g (snd (forward ops grad g self src)) srcs"

fun refresh_lengths ::
  "('p, 'o, 'r) torch \<Rightarrow> bool \<Rightarrow> 'r \<Rightarrow> 'p TransformerModel \<Rightarrow> int tensor list \<Rightarrow> nat list" where
  "refresh_lengths ops grad g self [] = []"
| "refresh_lengths ops grad g self (src # srcs) =
     (case src_mask self of
        None \<Rightarrow> [rows src]
      | Some m \<Rightarrow> if rows m \<noteq> rows src then [rows src] else [])
     @ refresh_lengths ops grad g (snd (forward ops grad g self src)) srcs"

text \<open>
  The cached mask, when there is one, is the mask generated for its own size. It holds of
  a new object, and \<^verbatim>\<open>forward\<close> is the only code that assigns \<^verbatim>\<open>src_mask\<close>.
\<close>

definition mask_cache_valid :: "'p TransformerModel \<Rightarrow> bool" where
  "mask_cache_valid self =
     (case src_mask self of
        None \<Rightarrow> True
      | Some m \<Rightarrow> m = generate_square_subsequent_mask self (rows m))"

section \<open>The training script\<close>

text \<open>The lines the script prints; wall-clock fields are left out.\<close>

datatype line =
    WindowReport int nat int real pyfloat pyfloat
  | Dashes
  | EpochSummary int pyfloat pyfloat
  | Equals
  | TestSummary pyfloat pyfloat

text \<open>
  The state the script works on: the store of model objects, the reference held by the
  global \<^verbatim>\<open>model\<close>, the optimiser's learning rate, the state of the random generator, the
  globals \<^verbatim>\<open>best_val_loss\<close> and \<^verbatim>\<open>best_model\<close> (a reference or \<^verbatim>\<open>None\<close>), and the output.
\<close>

record ('p, 'r) world =
  heap :: "nat \<Rightarrow> 'p TransformerModel"
  model :: nat
  lr :: real
  rng :: 'r
  best_val_loss :: pyfloat
  best_model :: "nat option"
  printed :: "line list"

text \<open>
  The global constants of the script: \<^verbatim>\<open>bptt = 35\<close>, \<^verbatim>\<open>gamma=0.95\<close>, \<^verbatim>\<open>epochs = 3\<close>, and the
  three batched splits.
\<close>

record config =
  bptt :: int
  gamma :: real
  train_data :: "int tensor"
  val_data :: "int tensor"
  test_data :: "int tensor"
  epochs :: int

text \<open>\<^verbatim>\<open>m.train()\<close> and \<^verbatim>\<open>m.eval()\<close> on the object at an address.\<close>

definition set_training :: "nat \<Rightarrow> bool \<Rightarrow> ('p, 'r) world \<Rightarrow> ('p, 'r) world" where
  "set_training a b w = w\<lparr>heap := (heap w)(a := (heap w a)\<lparr>training := b\<rparr>)\<rparr>"

text \<open>\<^verbatim>\<open>m(data)\<close> on the object at an address: \<^verbatim>\<open>forward\<close>, with its effect on the store.\<close>

definition call_model ::
  "('p, 'o, 'r) torch \<Rightarrow> bool \<Rightarrow> nat \<Rightarrow> int tensor \<Rightarrow> ('p, 'r) world \<Rightarrow> 'o \<times> ('p, 'r) world" where
  "call_model ops grad a src w =
     (let (output, self1) = forward ops grad (rng w) (heap w a) src
      in (output, w\<lparr>heap := (heap w)(a := self1),
                    rng := (if training (heap w a) then rng_next ops (rng w) src else rng w)\<rparr>))"

text \<open>
  \<^verbatim>\<open>optimizer.zero_grad()\<close> up to \<^verbatim>\<open>optimizer.step()\<close>: the optimiser was built on
  \<^verbatim>\<open>model.parameters()\<close>, so it updates the parameters of the object \<^verbatim>\<open>model\<close> refers to.
\<close>

definition optimizer_step ::
  "('p, 'o, 'r) torch \<Rightarrow> 'o \<Rightarrow> int list \<Rightarrow> ('p, 'r) world \<Rightarrow> ('p, 'r) world" where
  "optimizer_step ops output targets w =
     w\<lparr>heap := (heap w)(model w :=
          (heap w (model w))\<lparr>params := sgd_update ops (lr w) (params (heap w (model w))) output targets\<rparr>)\<rparr>"

text \<open>
  \<^verbatim>\<open>
  def train():
      model.train()
      total_loss = 0.
      for batch, i in enumerate(range(0, train_data.size(0) - 1, bptt)):
          data, targets = get_batch(train_data, i)
          optimizer.zero_grad()
          output = model(data)
          loss = criterion(output.view(-1, ntokens), targets)
          loss.backward()
          torch.nn.utils.clip_grad_norm_(model.parameters(), 0.5)
          optimizer.step()
          total_loss += loss.item()
          log_interval = 200
          if batch % log_interval == 0 and batch > 0:
              cur_loss = total_loss / log_interval
              print(... epoch, batch, len(train_data) // bptt, scheduler.get_lr()[0],
                    ..., cur_loss, math.exp(cur_loss))
              total_loss = 0
  \<close>
  The body of the loop, over the enumerated window starts. \<^verbatim>\<open>log_interval\<close> is the literal
  the body assigns. The arguments of \<^verbatim>\<open>print\<close> are evaluated in order, so a zero \<^verbatim>\<open>bptt\<close>
  raises before \<^verbatim>\<open>math.exp\<close> can, and an exception leaves the line unprinted. The rate the
  report shows is the optimiser's current one.
\<close>

fun train_loop ::
  "('p, 'o, 'r) torch \<Rightarrow> config \<Rightarrow> int \<Rightarrow> (nat \<times> int) list \<Rightarrow> pyfloat \<Rightarrow> ('p, 'r) world
     \<Rightarrow> (error \<times> line list) + ('p, 'r) world" where
  "train_loop ops cfg epoch [] total_loss w = Inr w"
| "train_loop ops cfg epoch ((batch, i) # rest) total_loss w =
     (let (data, targets) = get_batch (bptt cfg) (train_data cfg) i;
          (output, w1) = call_model ops True (model w) data w;
          loss = criterion ops output targets;
          w2 = optimizer_step ops output targets w1;
          total_loss1 = fadd total_loss loss;
          log_interval = 200
      in if int batch mod log_interval = 0 \<and> 0 < batch then
           (case py_truediv total_loss1 log_interval of
              Inl e \<Rightarrow> Inl (e, printed w2)
            | Inr cur_loss \<Rightarrow>
                if bptt cfg = 0 then Inl (ZeroDivisionError, printed w2)
                else
                  (case math_exp cur_loss of
                     Inl e \<Rightarrow> Inl (e, printed w2)
                   | Inr ppl \<Rightarrow>
                       train_loop ops cfg epoch rest (Fin 0)
                         (w2\<lparr>printed := printed w2 @
                            [WindowReport epoch batch (int (rows (train_data cfg)) div bptt cfg)
                               (lr w2) cur_loss ppl]\<rparr>)))
         else train_loop ops cfg epoch rest total_loss1 w2)"

definition train ::
  "('p, 'o, 'r) torch \<Rightarrow> config \<Rightarrow> int \<Rightarrow> ('p, 'r) world \<Rightarrow> (error \<times> line list) + ('p, 'r) world" where
  "train ops cfg epoch w =
     (let w0 = set_training (model w) True w in
      case py_range 0 (int (rows (train_data cfg)) - 1) (bptt cfg) of
        Inl e \<Rightarrow> Inl (e, printed w0)
      | Inr starts \<Rightarrow> train_loop ops cfg epoch (enumerate 0 starts) (Fin 0) w0)"

text \<open>
  \<^verbatim>\<open>
  def evaluate(eval_model, data_source):
      eval_model.eval()
      total_loss = 0.
      with torch.no_grad():
          for i in range(0, data_source.size(0) - 1, bptt):
              data, targets = get_batch(data_source, i)
              output = eval_model(data)
              output_flat = output.view(-1, ntokens)
              total_loss += len(data) * criterion(output_flat, targets).item()
      return total_loss / (len(data_source) - 1)
  \<close>
  \<^verbatim>\<open>eval_model\<close> is a reference or \<^verbatim>\<open>None\<close>; \<^verbatim>\<open>None.eval()\<close> raises. Inside
  \<^verbatim>\<open>torch.no_grad()\<close> the forward pass runs with the gradient mode off.
\<close>

fun evaluate_loop ::
  "('p, 'o, 'r) torch \<Rightarrow> config \<Rightarrow> nat \<Rightarrow> int tensor \<Rightarrow> int list \<Rightarrow> pyfloat \<Rightarrow> ('p, 'r) world
     \<Rightarrow> pyfloat \<times> ('p, 'r) world" where
  "evaluate_loop ops cfg eval_model data_source [] total_loss w = (total_loss, w)"
| "evaluate_loop ops cfg eval_model data_source (i # rest) total_loss w =
     (let (data, targets) = get_batch (bptt cfg) data_source i;
          (output, w1) = call_model ops False eval_model data w;
          total_loss1 = fadd total_loss (fmul_int (int (rows data)) (criterion ops output targets))
      in evaluate_loop ops cfg eval_model data_source rest total_loss1 w1)"

definition evaluate ::
  "('p, 'o, 'r) torch \<Rightarrow> config \<Rightarrow> nat option \<Rightarrow> int tensor \<Rightarrow> ('p, 'r) world
     \<Rightarrow> (error \<times> line list) + (pyfloat \<times> ('p, 'r) world)" where
  "evaluate ops cfg eval_model data_source w =
     (case eval_model of
        None \<Rightarrow> Inl (AttributeError, printed w)
      | Some a \<Rightarrow>
          (let w0 = set_training a False w in
           (case py_range 0 (int (rows data_source) - 1) (bptt cfg) of
              Inl e \<Rightarrow> Inl (e, printed w0)
            | Inr starts \<Rightarrow>
                (let (total_loss, w1) = evaluate_loop ops cfg a data_source starts (Fin 0) w0 in
                 (case py_truediv total_loss (int (rows data_source) - 1) of
                    Inl e \<Rightarrow> Inl (e, printed w1)
                  | Inr r \<Rightarrow> Inr (r, w1))))))"

text \<open>
  Modelled from the spec: \<^verbatim>\<open>scheduler.step()\<close> of
  \<^verbatim>\<open>torch.optim.lr_scheduler.StepLR(optimizer, 1.0, gamma=0.95)\<close> is library code that the
  notebook does not contain. In the words of the specification, one step multiplies the
  learning rate by the fixed decay factor.
\<close>

definition scheduler_step :: "config \<Rightarrow> ('p, 'r) world \<Rightarrow> ('p, 'r) world" where
  "scheduler_step cfg w = w\<lparr>lr := lr w * gamma cfg\<rparr>"

text \<open>
  \<^verbatim>\<open>
  for epoch in range(1, epochs + 1):
      train()
      val_loss = evaluate(model, val_data)
      print('-' * 89)
      print(... epoch, ..., val_loss, math.exp(val_loss))
      print('-' * 89)
      if val_loss < best_val_loss:
          best_val_loss = val_loss
          best_model = model
      scheduler.step()
  \<close>
  The first line of dashes is printed before \<^verbatim>\<open>math.exp(val_loss)\<close> is evaluated; when that
  raises, the summary is not printed and the update below it is not reached.
\<close>

definition epoch_body ::
  "('p, 'o, 'r) torch \<Rightarrow> config \<Rightarrow> int \<Rightarrow> ('p, 'r) world \<Rightarrow> (error \<times> line list) + ('p, 'r) world" where
  "epoch_body ops cfg epoch w =
     (case train ops cfg epoch w of
        Inl e \<Rightarrow> Inl e
      | Inr w1 \<Rightarrow>
          (case evaluate ops cfg (Some (model w1)) (val_data cfg) w1 of
             Inl e \<Rightarrow> Inl e
           | Inr (val_loss, w2) \<Rightarrow>
               (case math_exp val_loss of
                  Inl e \<Rightarrow> Inl (e, printed w2 @ [Dashes])
                | Inr ppl \<Rightarrow>
                    let w3 = w2\<lparr>printed := printed w2 @
                               [Dashes, EpochSummary epoch val_loss ppl, Dashes]\<rparr>;
                        w4 = (if flt val_loss (best_val_loss w3)
                              then w3\<lparr>best_val_loss := val_loss, best_model := Some (model w3)\<rparr>
                              else w3)
                    in Inr (scheduler_step cfg w4))))"

fun epoch_loop ::
  "('p, 'o, 'r) torch \<Rightarrow> config \<Rightarrow> int list \<Rightarrow> ('p, 'r) world \<Rightarrow> (error \<times> line list) + ('p, 'r) world" where
  "epoch_loop ops cfg [] w = Inr w"
| "epoch_loop ops cfg (epoch # rest) w =
     (case epoch_body ops cfg epoch w of
        Inl e \<Rightarrow> Inl e
      | Inr w1 \<Rightarrow> epoch_loop ops cfg rest w1)"

text \<open>
  The last two cells of the notebook:
  \<^verbatim>\<open>
  best_val_loss = float("inf")
  best_model = None
  for epoch in range(1, epochs + 1): ...
  test_loss = evaluate(best_model, test_data)
  print('=' * 89)
  print(... test_loss, math.exp(test_loss))
  print('=' * 89)
  \<close>
\<close>

definition training_run ::
  "('p, 'o, 'r) torch \<Rightarrow> config \<Rightarrow> ('p, 'r) world \<Rightarrow> (error \<times> line list) + ('p, 'r) world" where
  "training_run ops cfg w =
     (let w0 = w\<lparr>best_val_loss := PInf, best_model := None\<rparr> in
      case epoch_loop ops cfg [1..epochs cfg] w0 of
        Inl e \<Rightarrow> Inl e
      | Inr w1 \<Rightarrow>
          (case evaluate ops cfg (best_model w1) (test_data cfg) w1 of
             Inl e \<Rightarrow> Inl e
           | Inr (test_loss, w2) \<Rightarrow>
               (case math_exp test_loss of
                  Inl e \<Rightarrow> Inl (e, printed w2 @ [Equals])
                | Inr ppl \<Rightarrow>
                    Inr (w2\<lparr>printed := printed w2 @ [Equals, TestSummary test_loss ppl, Equals]\<rparr>))))"

section \<open>A small instance\<close>

text \<open>
  A concrete instance on which the theorems below are exercised: the parameters are a
  counter of optimiser steps, the network returns the counter, and the loss of an output
  is its value as a float.
\<close>

definition demo_ops :: "(nat, nat, unit) torch" where
  "demo_ops = \<lparr>net = (\<lambda>p tab tr gr g m src. p), rng_next = (\<lambda>g src. g),
                criterion = (\<lambda>out tg. Fin (real out)), sgd_update = (\<lambda>l p out tg. Suc p)\<rparr>"

definition demo_model :: "nat TransformerModel" where
  "demo_model = \<lparr>params = 0, pe = tabulate 0 0 (\<lambda>p j. 0), src_mask = None, training = True\<rparr>"

definition demo_world :: "(nat, unit) world" where
  "demo_world = \<lparr>heap = (\<lambda>a. demo_model), model = 0, lr = 5, rng = (),
                  best_val_loss = PInf, best_model = None, printed = []\<rparr>"

definition demo_cfg :: config where
  "demo_cfg = \<lparr>bptt = 2, gamma = 1 / 2,
                train_data = tabulate 6 2 (\<lambda>i j. int (i + 10 * j)),
                val_data = tabulate 4 1 (\<lambda>i j. int i),
                test_data = tabulate 3 1 (\<lambda>i j. int i),
                epochs = 2\<rparr>"

section \<open>Notions used to state the properties\<close>

text \<open>
  The length \<^verbatim>\<open>len(data)\<close> of the window of \<^verbatim>\<open>data_source\<close> that starts at \<open>i\<close>, and the loss
  of that window for a given model object: the criterion applied to the output of the
  network in evaluation mode, with the gradient mode off and under the causal mask of the
  window's length, and to the window's targets.
\<close>

definition window_len :: "config \<Rightarrow> int tensor \<Rightarrow> int \<Rightarrow> nat" where
  "window_len cfg data_source i = rows (fst (get_batch (bptt cfg) data_source i))"

definition window_loss ::
  "('p, 'o, 'r) torch \<Rightarrow> config \<Rightarrow> int tensor \<Rightarrow> 'p TransformerModel \<Rightarrow> 'r \<Rightarrow> int \<Rightarrow> pyfloat" where
  "window_loss ops cfg data_source self g i =
     (let (data, targets) = get_batch (bptt cfg) data_source i
      in criterion ops
           (net ops (params self) (pe self) False False g
              (generate_square_subsequent_mask self (rows data)) data)
           targets)"

text \<open>The value of a finite float.\<close>

fun fin_val :: "pyfloat \<Rightarrow> real" where
  "fin_val (Fin a) = a"
| "fin_val PInf = 0"
| "fin_val NInf = 0"
| "fin_val NaN = 0"

text \<open>The kinds of printed lines.\<close>

fun is_window_report :: "line \<Rightarrow> bool" where
  "is_window_report (WindowReport e b n l c p) = True"
| "is_window_report Dashes = False"
| "is_window_report (EpochSummary e v p) = False"
| "is_window_report Equals = False"
| "is_window_report (TestSummary v p) = False"

fun is_epoch_summary :: "line \<Rightarrow> bool" where
  "is_epoch_summary (EpochSummary e v p) = True"
| "is_epoch_summary (WindowReport e b n l c p) = False"
| "is_epoch_summary Dashes = False"
| "is_epoch_summary Equals = False"
| "is_epoch_summary (TestSummary v p) = False"

section \<open>Facts about tensors\<close>

lemma index_bound: "i < r \<Longrightarrow> j < c \<Longrightarrow> i * c + j < r * (c::nat)"
proof -
  assume a: "i < r" "j < c"
  have "i * c + j < Suc i * c" using a by simp
  also have "\<dots> \<le> r * c" using a by (intro mult_le_mono1) simp
  finally show ?thesis .
qed

lemma length_concat_rows: "length (concat (map (\<lambda>i. map (f i) [0..<c]) [0..<r])) = r * c"
  by (induction r) simp_all

lemma nth_concat_rows:
  "i < r \<Longrightarrow> j < c \<Longrightarrow> concat (map (\<lambda>i. map (f i) [0..<c]) [0..<r]) ! (i * c + j) = f i j"
proof (induction r)
  case 0
  then show ?case by simp
next
  case (Suc r)
  show ?case
  proof (cases "i < r")
    case True
    then have "i * c + j < r * c" using Suc.prems by (simp add: index_bound)
    then show ?thesis using Suc.IH True Suc.prems
      by (simp add: nth_append length_concat_rows)
  next
    case False
    then have "i = r" using Suc.prems by simp
    then show ?thesis using Suc.prems
      by (simp add: nth_append length_concat_rows)
  qed
qed

lemma tabulate_simps [simp]:
  "rows (tabulate r c f) = r" "cols (tabulate r c f) = c"
  "well_formed (tabulate r c f)"
  by (simp_all add: tabulate_def well_formed_def length_concat_rows)

lemma entry_tabulate: "i < r \<Longrightarrow> j < c \<Longrightarrow> entry (tabulate r c f) i j = f i j"
  by (simp add: entry_def tabulate_def nth_concat_rows)

section \<open>Batching: \<^verbatim>\<open>batchify\<close>\<close>

lemma columns_take:
  assumes "n * B \<le> length xs"
  shows "concat (map (\<lambda>b. map (\<lambda>t. xs ! (b * n + t)) [0..<n]) [0..<B]) = take (B * n) xs"
proof (rule nth_equalityI)
  show "length (concat (map (\<lambda>b. map (\<lambda>t. xs ! (b * n + t)) [0..<n]) [0..<B])) = length (take (B * n) xs)"
    using assms by (simp add: length_concat_rows mult.commute)
next
  fix k
  assume "k < length (concat (map (\<lambda>b. map (\<lambda>t. xs ! (b * n + t)) [0..<n]) [0..<B]))"
  then have k: "k < B * n" by (simp add: length_concat_rows)
  then have n: "0 < n" by (cases n) simp_all
  have kd: "k div n < B" using k n by (simp add: less_mult_imp_div_less mult.commute)
  have km: "k mod n < n" using n by simp
  have "concat (map (\<lambda>b. map (\<lambda>t. xs ! (b * n + t)) [0..<n]) [0..<B]) ! (k div n * n + k mod n)
        = xs ! (k div n * n + k mod n)"
    using kd km by (rule nth_concat_rows)
  then show "concat (map (\<lambda>b. map (\<lambda>t. xs ! (b * n + t)) [0..<n]) [0..<B]) ! k = take (B * n) xs ! k"
    using k by simp
qed

lemma narrow_numericalize:
  "k \<le> length xs \<Longrightarrow>
     narrow (numericalize xs) 0 (int k) = Inr \<lparr>rows = k, cols = 1, elems = take k xs\<rparr>"
  by (simp add: narrow_def numericalize_def)

lemma batchify_result:
  assumes "0 < B"
  shows "batchify xs B =
           Inr (transpose01 \<lparr>rows = nat B, cols = length xs div nat B,
                             elems = take (length xs div nat B * nat B) xs\<rparr>)"
proof -
  define n where "n = length xs div nat B"
  have B: "B = int (nat B)" using assms by simp
  have nb: "int (length xs) div B = int n"
    unfolding n_def by (subst B) (simp only: zdiv_int)
  have prod: "int n * B = int (n * nat B)" using assms by simp
  have le: "n * nat B \<le> length xs" unfolding n_def by simp
  have "narrow (numericalize xs) 0 (int (n * nat B))
             = Inr \<lparr>rows = n * nat B, cols = 1, elems = take (n * nat B) xs\<rparr>"
    using le by (rule narrow_numericalize)
  then have nar: "narrow (numericalize xs) 0 (int n * B)
             = Inr \<lparr>rows = n * nat B, cols = 1, elems = take (n * nat B) xs\<rparr>"
    by (simp only: prod)
  have vw: "view_rows \<lparr>rows = n * nat B, cols = 1, elems = take (n * nat B) xs\<rparr> B
            = Inr \<lparr>rows = nat B, cols = n, elems = take (n * nat B) xs\<rparr>"
    using assms by (simp add: view_rows_def)
  show ?thesis
    using assms nb nar vw
    by (simp add: batchify_def Let_def numericalize_def n_def [symmetric])
qed

text \<open>
  Claim C1. For a token sequence \<open>xs\<close> of length \<open>L\<close> and a positive \<open>bsz = B\<close>, \<^verbatim>\<open>batchify\<close>
  returns a matrix of shape \<open>(L div B, B)\<close> whose entry at row \<open>t\<close>, column \<open>b\<close> is
  \<open>xs ! (b * (L div B) + t)\<close>. Read column after column, the matrix is the first
  \<open>(L div B) * B\<close> tokens of \<open>xs\<close>: the remainder is dropped from the end, nothing wraps around
  and nothing is padded.
\<close>

theorem batchify_shape_content:
  assumes "0 < B"
  shows "\<exists>M. batchify xs B = Inr M \<and> well_formed M
           \<and> rows M = length xs div nat B \<and> cols M = nat B
           \<and> (\<forall>t < rows M. \<forall>b < cols M. entry M t b = xs ! (b * (length xs div nat B) + t))
           \<and> concat (map (\<lambda>b. map (\<lambda>t. entry M t b) [0..<rows M]) [0..<cols M])
               = take (length xs div nat B * nat B) xs"
proof -
  define n where "n = length xs div nat B"
  define V where "V = \<lparr>rows = nat B, cols = n, elems = take (n * nat B) xs\<rparr>"
  define M where "M = transpose01 V"
  have res: "batchify xs B = Inr M"
    using batchify_result [OF assms, of xs] by (simp add: M_def V_def n_def)
  have le: "n * nat B \<le> length xs" unfolding n_def by simp
  have shape: "rows M = n" "cols M = nat B" "well_formed M"
    by (simp_all add: M_def V_def transpose01_def)
  have ent: "entry M t b = xs ! (b * n + t)" if "t < n" "b < nat B" for t b
  proof -
    have "b * n + t < nat B * n" using that by (simp add: index_bound)
    then have "take (n * nat B) xs ! (b * n + t) = xs ! (b * n + t)"
      by (simp add: mult.commute)
    then show ?thesis
      using that by (simp add: M_def transpose01_def V_def entry_tabulate) (simp add: entry_def)
  qed
  have meq: "map (\<lambda>b. map (\<lambda>t. entry M t b) [0..<n]) [0..<nat B]
        = map (\<lambda>b. map (\<lambda>t. xs ! (b * n + t)) [0..<n]) [0..<nat B]"
    by (rule map_cong [OF refl], rule map_cong [OF refl]) (simp add: ent)
  have cat: "concat (map (\<lambda>b. map (\<lambda>t. entry M t b) [0..<n]) [0..<nat B]) = take (n * nat B) xs"
    by (subst meq, subst columns_take [OF le]) (simp add: mult.commute)
  have content: "\<forall>t < rows M. \<forall>b < cols M. entry M t b = xs ! (b * n + t)"
    using ent shape by simp
  have cat': "concat (map (\<lambda>b. map (\<lambda>t. entry M t b) [0..<rows M]) [0..<cols M])
              = take (n * nat B) xs"
    using cat by (simp only: shape)
  show ?thesis
    unfolding n_def [symmetric] using res shape content cat' by blast
qed

theorem batchify_shape_content_witness:
  "(0::int) < 3
   \<and> (\<exists>M. batchify [10, 11, 12, 13, 14, 15, 16, 17] 3 = Inr M \<and> rows M = 2 \<and> cols M = 3
        \<and> entry M 0 0 = 10 \<and> entry M 1 0 = 11 \<and> entry M 0 1 = 12 \<and> entry M 1 1 = 13
        \<and> entry M 0 2 = 14 \<and> entry M 1 2 = 15)"
proof -
  define xs :: "int list" where "xs = [10, 11, 12, 13, 14, 15, 16, 17]"
  have pos: "(0::int) < 3" by simp
  obtain M where M: "batchify xs 3 = Inr M" "rows M = length xs div nat 3" "cols M = nat 3"
    "\<forall>t < rows M. \<forall>b < cols M. entry M t b = xs ! (b * (length xs div nat 3) + t)"
    using batchify_shape_content [OF pos, of xs] by blast
  have r: "rows M = 2" and c: "cols M = 3" using M(2,3) by (simp_all add: xs_def)
  have e: "entry M t b = xs ! (b * 2 + t)" if "t < 2" "b < 3" for t b
    using M(4) r c that by (simp add: xs_def)
  have "entry M 0 0 = 10" "entry M 1 0 = 11" "entry M 0 1 = 12" "entry M 1 1 = 13"
    "entry M 0 2 = 14" "entry M 1 2 = 15"
    by (simp_all add: e xs_def)
  then show ?thesis using M(1) r c pos unfolding xs_def by blast
qed

section \<open>Batching: \<^verbatim>\<open>get_batch\<close>\<close>

lemma slice_index_nat: "k \<le> n \<Longrightarrow> slice_index n (int k) = k"
  by (simp add: slice_index_def)

lemma slice_rows_nat:
  assumes "lo \<le> hi" "hi \<le> rows T"
  shows "slice_rows T (int lo) (int hi) =
           \<lparr>rows = hi - lo, cols = cols T,
            elems = take ((hi - lo) * cols T) (drop (lo * cols T) (elems T))\<rparr>"
proof -
  have "slice_index (rows T) (int lo) = lo" "slice_index (rows T) (int hi) = hi"
    using assms by (simp_all add: slice_index_nat)
  then show ?thesis using assms by (simp add: slice_rows_def Let_def max_def)
qed

lemma nth_window:
  assumes "length xs = r * c" "lo + n \<le> r" "t < n" "b < c"
  shows "take (n * c) (drop (lo * c) xs) ! (t * c + b) = xs ! ((lo + t) * c + b)"
proof -
  have "t * c + b < n * c" using assms by (simp add: index_bound)
  moreover have "lo * c \<le> length xs" using assms by simp
  ultimately show ?thesis by (simp add: add_mult_distrib add.assoc)
qed

lemma length_window:
  assumes "length xs = r * c" "lo + n \<le> (r::nat)"
  shows "length (take (n * c) (drop (lo * c) xs)) = n * c"
proof -
  have "(lo + n) * c \<le> r * c" using assms(2) by (rule mult_le_mono1)
  then show ?thesis using assms(1) by (simp add: add_mult_distrib)
qed

lemma get_batch_nat:
  assumes "lo + 1 + n \<le> rows source"
    and "n = nat (min W (int (rows source) - 1 - int lo))" "0 \<le> W"
  shows "get_batch W source (int lo) =
     (\<lparr>rows = n, cols = cols source,
        elems = take (n * cols source) (drop (lo * cols source) (elems source))\<rparr>,
      take (n * cols source) (drop ((lo + 1) * cols source) (elems source)))"
proof -
  define seq_len where "seq_len = min W (int (rows source) - 1 - int lo)"
  have sl: "seq_len = int n" using assms by (simp add: seq_len_def)
  have a: "int lo + seq_len = int (lo + n)" "int lo + 1 = int (lo + 1)"
    "int (lo + 1) + seq_len = int (lo + 1 + n)" using sl by simp_all
  have d: "slice_rows source (int lo) (int (lo + n)) =
       \<lparr>rows = n, cols = cols source,
        elems = take (n * cols source) (drop (lo * cols source) (elems source))\<rparr>"
    using assms(1) by (subst slice_rows_nat) simp_all
  have t: "slice_rows source (int (lo + 1)) (int (lo + 1 + n)) =
       \<lparr>rows = n, cols = cols source,
        elems = take (n * cols source) (drop ((lo + 1) * cols source) (elems source))\<rparr>"
    using assms(1) by (subst slice_rows_nat) simp_all
  show ?thesis
    by (simp only: get_batch_def seq_len_def [symmetric] Let_def a d t view_flat_def
          tensor.simps)
qed

text \<open>
  Claim C2. For a source matrix with \<open>T\<close> rows, a start \<open>i\<close> with \<open>0 \<le> i \<le> T - 2\<close> and a window
  size \<open>W \<ge> 0\<close>, \<^verbatim>\<open>get_batch\<close> returns as data the \<open>seq_len = min W (T - 1 - i)\<close> rows from
  row \<open>i\<close> on, and as target the rows \<open>i + 1\<close> to \<open>i + seq_len\<close> flattened row after row:
  \<open>target ! (t * B + b)\<close> is the source entry at row \<open>i + 1 + t\<close>, column \<open>b\<close>.
\<close>

theorem get_batch_window:
  assumes "well_formed source" "0 \<le> i" "i \<le> int (rows source) - 2" "0 \<le> W"
  shows "case get_batch W source i of
           (data, target) \<Rightarrow>
             rows data = nat (min W (int (rows source) - 1 - i))
           \<and> cols data = cols source \<and> well_formed data
           \<and> (\<forall>t < rows data. \<forall>b < cols source. entry data t b = entry source (nat i + t) b)
           \<and> length target = rows data * cols source
           \<and> (\<forall>t < rows data. \<forall>b < cols source.
                 target ! (t * cols source + b) = entry source (nat i + 1 + t) b)"
proof -
  define lo where "lo = nat i"
  define n where "n = nat (min W (int (rows source) - 1 - i))"
  define c where "c = cols source"
  have i: "i = int lo" using assms(2) by (simp add: lo_def)
  have bound: "lo + 1 + n \<le> rows source" using assms(2,3) by (simp add: lo_def n_def)
  have len: "length (elems source) = rows source * c"
    using assms(1) by (simp add: well_formed_def c_def)
  have gb: "get_batch W source i =
     (\<lparr>rows = n, cols = c, elems = take (n * c) (drop (lo * c) (elems source))\<rparr>,
      take (n * c) (drop ((lo + 1) * c) (elems source)))"
    unfolding i c_def by (rule get_batch_nat [OF bound _ assms(4)]) (simp add: n_def i)
  have l1: "length (take (n * c) (drop (lo * c) (elems source))) = n * c"
    using len bound by (intro length_window [where r = "rows source"]) simp_all
  have l2: "length (take (n * c) (drop ((lo + 1) * c) (elems source))) = n * c"
    using len bound by (intro length_window [where r = "rows source"]) simp_all
  have e1: "take (n * c) (drop (lo * c) (elems source)) ! (t * c + b)
            = elems source ! ((lo + t) * c + b)" if "t < n" "b < c" for t b
    using len _ that by (rule nth_window) (use bound in simp)
  have e2: "take (n * c) (drop ((lo + 1) * c) (elems source)) ! (t * c + b)
            = elems source ! ((lo + 1 + t) * c + b)" if "t < n" "b < c" for t b
    using len _ that by (rule nth_window) (use bound in simp)
  show ?thesis
    unfolding gb n_def [symmetric] lo_def [symmetric] c_def [symmetric]
    using l1 l2 e1 e2
    by (simp add: well_formed_def entry_def c_def [symmetric])
qed

theorem get_batch_window_witness:
  "well_formed \<lparr>rows = 4, cols = 2, elems = [0, 10, 1, 11, 2, 12, 3, 13 :: int]\<rparr>
   \<and> (0::int) \<le> 1 \<and> (1::int) \<le> int (rows \<lparr>rows = 4, cols = 2, elems = [0, 10, 1, 11, 2, 12, 3, 13 :: int]\<rparr>) - 2
   \<and> (0::int) \<le> 5
   \<and> rows (fst (get_batch 5 \<lparr>rows = 4, cols = 2, elems = [0, 10, 1, 11, 2, 12, 3, 13 :: int]\<rparr> 1)) = 2
   \<and> length (snd (get_batch 5 \<lparr>rows = 4, cols = 2, elems = [0, 10, 1, 11, 2, 12, 3, 13 :: int]\<rparr> 1)) = 4
   \<and> snd (get_batch 5 \<lparr>rows = 4, cols = 2, elems = [0, 10, 1, 11, 2, 12, 3, 13 :: int]\<rparr> 1) ! 3 = 13"
proof -
  define S :: "int tensor" where "S = \<lparr>rows = 4, cols = 2, elems = [0, 10, 1, 11, 2, 12, 3, 13]\<rparr>"
  have h: "well_formed S" "(0::int) \<le> 1" "(1::int) \<le> int (rows S) - 2" "(0::int) \<le> 5"
    by (simp_all add: S_def well_formed_def)
  obtain data target where g: "get_batch 5 S 1 = (data, target)" by (cases "get_batch 5 S 1")
  have w: "rows data = nat (min 5 (int (rows S) - 1 - 1))"
    "length target = rows data * cols S"
    "\<forall>t < rows data. \<forall>b < cols S. target ! (t * cols S + b) = entry S (nat 1 + 1 + t) b"
    using get_batch_window [OF h] by (simp_all add: g)
  have r: "rows data = 2" using w(1) by (simp add: S_def)
  have l: "length target = 4" using w(2) r by (simp add: S_def)
  have "target ! (1 * cols S + 1) = entry S (nat 1 + 1 + 1) 1"
    using w(3) [rule_format, of 1 1] r by (simp add: S_def)
  then have "target ! 3 = 13" by (simp add: S_def entry_def)
  then show ?thesis using h r l g unfolding S_def by simp
qed

section \<open>The causal mask\<close>

lemma transpose01_simps [simp]:
  "rows (transpose01 T) = cols T" "cols (transpose01 T) = rows T"
  by (simp_all add: transpose01_def)

lemma entry_transpose01: "i < cols T \<Longrightarrow> j < rows T \<Longrightarrow> entry (transpose01 T) i j = entry T j i"
  by (simp add: transpose01_def entry_tabulate)

lemma mask_ops_shape [simp]:
  "rows (ones r c) = r" "cols (ones r c) = c"
  "rows (triu F) = rows F" "cols (triu F) = cols F"
  "rows (eq_scalar T v) = rows T" "cols (eq_scalar T v) = cols T"
  "rows (to_float M) = rows M" "cols (to_float M) = cols M"
  "rows (masked_fill T M v) = rows T" "cols (masked_fill T M v) = cols T"
  by (simp_all add: ones_def triu_def eq_scalar_def to_float_def masked_fill_def)

lemma mask_ops_entry:
  "i < r \<Longrightarrow> j < c \<Longrightarrow> entry (ones r c) i j = Fin 1"
  "i < rows F \<Longrightarrow> j < cols F \<Longrightarrow> entry (triu F) i j = (if i \<le> j then entry F i j else Fin 0)"
  "i < rows T \<Longrightarrow> j < cols T \<Longrightarrow> entry (eq_scalar T v) i j = (entry T i j = v)"
  "i < rows M \<Longrightarrow> j < cols M \<Longrightarrow> entry (to_float M) i j = (if entry M i j then Fin 1 else Fin 0)"
  "i < rows T \<Longrightarrow> j < cols T \<Longrightarrow>
     entry (masked_fill T M v) i j = (if entry M i j then v else entry T i j)"
  by (simp_all add: ones_def triu_def eq_scalar_def to_float_def masked_fill_def entry_tabulate)

lemma mask_shape [simp]:
  "rows (generate_square_subsequent_mask self n) = n"
  "cols (generate_square_subsequent_mask self n) = n"
  by (simp_all add: generate_square_subsequent_mask_def Let_def)

lemma mask_well_formed: "well_formed (generate_square_subsequent_mask self n)"
  by (simp add: generate_square_subsequent_mask_def Let_def masked_fill_def)

lemma mask_entry:
  assumes "i < n" "j < n"
  shows "entry (generate_square_subsequent_mask self n) i j = (if j \<le> i then Fin 0 else NInf)"
proof -
  define mask where "mask = transpose01 (eq_scalar (triu (ones n n)) (Fin 1))"
  have m: "entry mask i j = (j \<le> i)"
    using assms by (simp add: mask_def entry_transpose01 mask_ops_entry)
  have sh: "rows mask = n" "cols mask = n" by (simp_all add: mask_def)
  show ?thesis
    using assms m sh
    by (simp add: generate_square_subsequent_mask_def Let_def mask_def [symmetric] mask_ops_entry)
qed

lemma mask_independent_of_self:
  "generate_square_subsequent_mask self' n = generate_square_subsequent_mask self n"
  by (simp add: generate_square_subsequent_mask_def)

text \<open>
  Claim C3. For every size \<open>n\<close> the generated mask is an \<open>n\<close> by \<open>n\<close> matrix whose entry \<open>(i, j)\<close>
  is \<open>0\<close> when \<open>j \<le> i\<close> and \<open>-inf\<close> when \<open>j > i\<close>. The result does not depend on the object the
  method is called on, so every call with the same size yields the same matrix.
\<close>

theorem causal_mask_entries:
  "rows (generate_square_subsequent_mask (self :: 'p TransformerModel) n) = n
   \<and> cols (generate_square_subsequent_mask self n) = n
   \<and> well_formed (generate_square_subsequent_mask self n)
   \<and> (\<forall>i < n. \<forall>j < n.
         entry (generate_square_subsequent_mask self n) i j = (if j \<le> i then Fin 0 else NInf))
   \<and> (\<forall>self' :: 'p TransformerModel.
         generate_square_subsequent_mask self' n = generate_square_subsequent_mask self n)"
proof (intro conjI allI impI)
  fix self' :: "'p TransformerModel"
  show "generate_square_subsequent_mask self' n = generate_square_subsequent_mask self n"
    by (rule mask_independent_of_self)
qed (simp_all add: mask_well_formed mask_entry)

theorem causal_mask_entries_witness:
  "rows (generate_square_subsequent_mask
           \<lparr>params = (), pe = tabulate 0 0 (\<lambda>i j. 0), src_mask = None, training = True\<rparr> 2) = 2
   \<and> entry (generate_square_subsequent_mask
           \<lparr>params = (), pe = tabulate 0 0 (\<lambda>i j. 0), src_mask = None, training = True\<rparr> 2) 0 0 = Fin 0
   \<and> entry (generate_square_subsequent_mask
           \<lparr>params = (), pe = tabulate 0 0 (\<lambda>i j. 0), src_mask = None, training = True\<rparr> 2) 0 1 = NInf
   \<and> entry (generate_square_subsequent_mask
           \<lparr>params = (), pe = tabulate 0 0 (\<lambda>i j. 0), src_mask = None, training = True\<rparr> 2) 1 0 = Fin 0
   \<and> entry (generate_square_subsequent_mask
           \<lparr>params = (), pe = tabulate 0 0 (\<lambda>i j. 0), src_mask = None, training = True\<rparr> 2) 1 1 = Fin 0"
proof -
  define self :: "unit TransformerModel"
    where "self = \<lparr>params = (), pe = tabulate 0 0 (\<lambda>i j. 0), src_mask = None, training = True\<rparr>"
  note c = causal_mask_entries [of self 2]
  have e: "entry (generate_square_subsequent_mask self 2) i j = (if j \<le> i then Fin 0 else NInf)"
    if "i < 2" "j < 2" for i j using c that by blast
  have "entry (generate_square_subsequent_mask self 2) 0 0 = Fin 0"
    "entry (generate_square_subsequent_mask self 2) 0 1 = NInf"
    "entry (generate_square_subsequent_mask self 2) 1 0 = Fin 0"
    "entry (generate_square_subsequent_mask self 2) 1 1 = Fin 0"
    by (simp_all add: e)
  then show ?thesis using c unfolding self_def by blast
qed

section \<open>The mask cache of \<^verbatim>\<open>forward\<close>\<close>

lemma forward_state:
  "snd (forward ops grad g self src) =
     (case src_mask self of
        None \<Rightarrow> self\<lparr>src_mask := Some (generate_square_subsequent_mask self (rows src))\<rparr>
      | Some m \<Rightarrow>
          if rows m \<noteq> rows src
          then self\<lparr>src_mask := Some (generate_square_subsequent_mask self (rows src))\<rparr>
          else self)"
  by (simp add: forward_def Let_def)

lemma forward_frame [simp]:
  "params (snd (forward ops grad g self src)) = params self"
  "pe (snd (forward ops grad g self src)) = pe self"
  "training (snd (forward ops grad g self src)) = training self"
  by (simp_all add: forward_state split: option.split)

lemma forward_mask_rows:
  "\<exists>m. src_mask (snd (forward ops grad g self src)) = Some m \<and> rows m = rows src"
  by (simp add: forward_state split: option.split)

lemma mask_of_updated_self [simp]:
  "generate_square_subsequent_mask (self\<lparr>src_mask := x\<rparr>) n = generate_square_subsequent_mask self n"
  by (rule mask_independent_of_self)

lemma forward_mask_valid:
  "mask_cache_valid self \<Longrightarrow> mask_cache_valid (snd (forward ops grad g self src))"
  by (auto simp: forward_state mask_cache_valid_def split: option.splits)

lemma new_model_mask_valid:
  "TransformerModel_init layers ninp = Inr m \<Longrightarrow> src_mask m = None \<and> mask_cache_valid m"
  by (auto simp: TransformerModel_init_def mask_cache_valid_def split: sum.splits)

lemma forward_mask_exact:
  assumes "mask_cache_valid self"
  shows "src_mask (snd (forward ops grad g self src))
         = Some (generate_square_subsequent_mask self (rows src))"
  using assms
  by (auto simp: forward_state mask_cache_valid_def split: option.splits)

lemma no_refresh_keeps_mask:
  "refresh_lengths ops grad g self srcs = [] \<Longrightarrow>
     src_mask (forward_calls ops grad g self srcs) = src_mask self"
proof (induction srcs arbitrary: self)
  case Nil
  then show ?case by simp
next
  case (Cons src srcs)
  from Cons.prems have tl: "refresh_lengths ops grad g (snd (forward ops grad g self src)) srcs = []"
    by simp
  from Cons.prems have "snd (forward ops grad g self src) = self"
    by (auto simp: forward_state split: option.splits if_splits)
  with Cons.IH [OF tl] show ?case by simp
qed

lemma last_refresh_is_cached:
  "refresh_lengths ops grad g self srcs \<noteq> [] \<Longrightarrow>
     map_option rows (src_mask (forward_calls ops grad g self srcs))
       = Some (last (refresh_lengths ops grad g self srcs))"
proof (induction srcs arbitrary: self)
  case Nil
  then show ?case by simp
next
  case (Cons src srcs)
  define self1 where "self1 = snd (forward ops grad g self src)"
  show ?case
  proof (cases "refresh_lengths ops grad g self1 srcs = []")
    case False
    with Cons.IH [of self1] show ?thesis by (simp add: self1_def)
  next
    case True
    with Cons.prems have hd: "(case src_mask self of None \<Rightarrow> [rows src]
        | Some m \<Rightarrow> if rows m \<noteq> rows src then [rows src] else []) = [rows src]"
      by (auto simp: self1_def split: option.splits if_splits)
    obtain m where m: "src_mask self1 = Some m" "rows m = rows src"
      using forward_mask_rows [of ops grad g self src] by (auto simp: self1_def)
    have "src_mask (forward_calls ops grad g self1 srcs) = src_mask self1"
      using True by (rule no_refresh_keeps_mask)
    then show ?thesis using True hd m by (simp add: self1_def [symmetric])
  qed
qed

lemma first_call_refreshes:
  "src_mask self = None \<Longrightarrow> srcs \<noteq> [] \<Longrightarrow> refresh_lengths ops grad g self srcs \<noteq> []"
  by (cases srcs) simp_all

text \<open>
  Claim C4. \<^verbatim>\<open>forward\<close> replaces the cached mask exactly when none is cached or the cached
  one's size differs from the sequence length of its input, and then by the mask generated
  for that length; otherwise the cached mask stays. After every call a mask is cached and
  its size is the sequence length of the call. Over any sequence of calls on one object,
  once a call has refreshed the cache, the size of the cached mask is the sequence length of
  the most recent call that refreshed it; on a new object the first call refreshes.
\<close>

theorem forward_mask_cache:
  "src_mask (snd (forward ops grad g self src)) =
     (if src_mask self = None \<or> rows (the (src_mask self)) \<noteq> rows src
      then Some (generate_square_subsequent_mask self (rows src))
      else src_mask self)
   \<and> (\<exists>m. src_mask (snd (forward ops grad g self src)) = Some m \<and> rows m = rows src)
   \<and> (refresh_lengths ops grad g self srcs \<noteq> [] \<longrightarrow>
        map_option rows (src_mask (forward_calls ops grad g self srcs))
          = Some (last (refresh_lengths ops grad g self srcs)))
   \<and> (src_mask self = None \<and> srcs \<noteq> [] \<longrightarrow> refresh_lengths ops grad g self srcs \<noteq> [])"
proof (intro conjI impI)
  show "src_mask (snd (forward ops grad g self src)) =
     (if src_mask self = None \<or> rows (the (src_mask self)) \<noteq> rows src
      then Some (generate_square_subsequent_mask self (rows src))
      else src_mask self)"
    by (simp add: forward_state split: option.split)
  show "\<exists>m. src_mask (snd (forward ops grad g self src)) = Some m \<and> rows m = rows src"
    by (rule forward_mask_rows)
  show "map_option rows (src_mask (forward_calls ops grad g self srcs))
          = Some (last (refresh_lengths ops grad g self srcs))"
    if "refresh_lengths ops grad g self srcs \<noteq> []"
    using that by (rule last_refresh_is_cached)
  show "refresh_lengths ops grad g self srcs \<noteq> []" if "src_mask self = None \<and> srcs \<noteq> []"
    using that by (simp add: first_call_refreshes)
qed

theorem forward_mask_cache_witness:
  "refresh_lengths demo_ops True () demo_model
      [tabulate 2 1 (\<lambda>i j. 0), tabulate 2 1 (\<lambda>i j. 1), tabulate 3 1 (\<lambda>i j. 0)] = [2, 3]
   \<and> map_option rows (src_mask (forward_calls demo_ops True () demo_model
        [tabulate 2 1 (\<lambda>i j. 0), tabulate 2 1 (\<lambda>i j. 1), tabulate 3 1 (\<lambda>i j. 0)])) = Some 3
   \<and> src_mask demo_model = None"
proof -
  define srcs :: "int tensor list"
    where "srcs = [tabulate 2 1 (\<lambda>i j. 0), tabulate 2 1 (\<lambda>i j. 1), tabulate 3 1 (\<lambda>i j. 0)]"
  have none: "src_mask demo_model = None" by (simp add: demo_model_def)
  have r: "refresh_lengths demo_ops True () demo_model srcs = [2, 3]"
    by (simp add: srcs_def demo_model_def forward_state)
  then have ne: "refresh_lengths demo_ops True () demo_model srcs \<noteq> []" by simp
  have "map_option rows (src_mask (forward_calls demo_ops True () demo_model srcs))
        = Some (last (refresh_lengths demo_ops True () demo_model srcs))"
    using forward_mask_cache [of demo_ops True "()" demo_model "hd srcs" srcs] ne by blast
  with r have m: "map_option rows (src_mask (forward_calls demo_ops True () demo_model srcs)) = Some 3"
    by simp
  show ?thesis using r m none unfolding srcs_def by blast
qed

section \<open>What the procedures leave unchanged\<close>

lemma call_model_fst:
  "fst (call_model ops grad a src w) = fst (forward ops grad (rng w) (heap w a) src)"
  by (simp add: call_model_def split_def Let_def)

lemma call_model_snd:
  "snd (call_model ops grad a src w) =
     w\<lparr>heap := (heap w)(a := snd (forward ops grad (rng w) (heap w a) src)),
       rng := (if training (heap w a) then rng_next ops (rng w) src else rng w)\<rparr>"
  by (simp add: call_model_def split_def Let_def)

lemma call_model_frame [simp]:
  "model (snd (call_model ops grad a src w)) = model w"
  "lr (snd (call_model ops grad a src w)) = lr w"
  "best_val_loss (snd (call_model ops grad a src w)) = best_val_loss w"
  "best_model (snd (call_model ops grad a src w)) = best_model w"
  "printed (snd (call_model ops grad a src w)) = printed w"
  "params (heap (snd (call_model ops grad a src w)) b) = params (heap w b)"
  "pe (heap (snd (call_model ops grad a src w)) b) = pe (heap w b)"
  "training (heap (snd (call_model ops grad a src w)) b) = training (heap w b)"
  by (simp_all add: call_model_snd)

lemma call_model_rng_eval:
  "\<not> training (heap w a) \<Longrightarrow> rng (snd (call_model ops grad a src w)) = rng w"
  by (simp add: call_model_snd)

lemma call_model_mask_valid:
  "mask_cache_valid (heap w b) \<Longrightarrow> mask_cache_valid (heap (snd (call_model ops grad a src w)) b)"
  by (auto simp: call_model_snd forward_mask_valid)

lemma optimizer_step_frame [simp]:
  "model (optimizer_step ops out tg w) = model w"
  "lr (optimizer_step ops out tg w) = lr w"
  "rng (optimizer_step ops out tg w) = rng w"
  "best_val_loss (optimizer_step ops out tg w) = best_val_loss w"
  "best_model (optimizer_step ops out tg w) = best_model w"
  "printed (optimizer_step ops out tg w) = printed w"
  "pe (heap (optimizer_step ops out tg w) b) = pe (heap w b)"
  "training (heap (optimizer_step ops out tg w) b) = training (heap w b)"
  "src_mask (heap (optimizer_step ops out tg w) b) = src_mask (heap w b)"
  by (simp_all add: optimizer_step_def)

lemma optimizer_step_params:
  "params (heap (optimizer_step ops out tg w) b) =
     (if b = model w then sgd_update ops (lr w) (params (heap w b)) out tg else params (heap w b))"
  by (simp add: optimizer_step_def)

lemma set_training_frame [simp]:
  "model (set_training a b w) = model w"
  "lr (set_training a b w) = lr w"
  "rng (set_training a b w) = rng w"
  "best_val_loss (set_training a b w) = best_val_loss w"
  "best_model (set_training a b w) = best_model w"
  "printed (set_training a b w) = printed w"
  "params (heap (set_training a b w) c) = params (heap w c)"
  "pe (heap (set_training a b w) c) = pe (heap w c)"
  "src_mask (heap (set_training a b w) c) = src_mask (heap w c)"
  "training (heap (set_training a b w) a) = b"
  by (simp_all add: set_training_def)

lemma mask_cache_valid_cong:
  assumes "src_mask s' = src_mask s"
  shows "mask_cache_valid s' \<longleftrightarrow> mask_cache_valid s"
proof -
  have "generate_square_subsequent_mask s' n = generate_square_subsequent_mask s n" for n
    by (rule mask_independent_of_self)
  then show ?thesis using assms by (simp add: mask_cache_valid_def split: option.split)
qed

lemma set_training_mask_valid:
  "mask_cache_valid (heap w c) \<Longrightarrow> mask_cache_valid (heap (set_training a b w) c)"
  by (simp add: mask_cache_valid_cong [of "heap (set_training a b w) c" "heap w c"])

text \<open>One pass of the body of the loop in \<^verbatim>\<open>train\<close>, up to the optimiser's step.\<close>

lemma train_loop_Cons:
  "train_loop ops cfg epoch ((batch, i) # rest) acc w =
     (let data = fst (get_batch (bptt cfg) (train_data cfg) i);
          targets = snd (get_batch (bptt cfg) (train_data cfg) i);
          output = fst (call_model ops True (model w) data w);
          w2 = optimizer_step ops output targets (snd (call_model ops True (model w) data w));
          acc1 = fadd acc (criterion ops output targets);
          cur_loss = fdiv_int acc1 200
      in if int batch mod 200 = 0 \<and> 0 < batch then
           (if bptt cfg = 0 then Inl (ZeroDivisionError, printed w2)
            else
              (case math_exp cur_loss of
                 Inl e \<Rightarrow> Inl (e, printed w2)
               | Inr ppl \<Rightarrow>
                   train_loop ops cfg epoch rest (Fin 0)
                     (w2\<lparr>printed := printed w2 @
                        [WindowReport epoch batch (int (rows (train_data cfg)) div bptt cfg) (lr w2)
                           cur_loss ppl]\<rparr>)))
         else train_loop ops cfg epoch rest acc1 w2)"
  by (simp add: split_def Let_def py_truediv_def)

lemma train_loop_invariant:
  assumes "train_loop ops cfg epoch ws acc w = Inr w'" and "P w"
    and step: "\<And>v data targets. P v \<Longrightarrow>
           P (optimizer_step ops (fst (call_model ops True (model v) data v)) targets
                (snd (call_model ops True (model v) data v)))"
    and print: "\<And>v l. P v \<Longrightarrow> P (v\<lparr>printed := printed v @ [l]\<rparr>)"
  shows "P w'"
  using assms(1,2)
proof (induction ws arbitrary: acc w)
  case Nil
  then show ?case by simp
next
  case (Cons x ws)
  obtain batch i where x: "x = (batch, i)" by (cases x)
  define data where "data = fst (get_batch (bptt cfg) (train_data cfg) i)"
  define targets where "targets = snd (get_batch (bptt cfg) (train_data cfg) i)"
  define w2 where "w2 = optimizer_step ops (fst (call_model ops True (model w) data w)) targets
                (snd (call_model ops True (model w) data w))"
  have P2: "P w2" unfolding w2_def using Cons.prems(2) by (rule step)
  from Cons.prems(1) show ?case
    unfolding x train_loop_Cons Let_def data_def [symmetric] targets_def [symmetric]
      w2_def [symmetric]
    by (auto split: if_splits sum.splits intro: Cons.IH P2 print [OF P2])
qed

lemma evaluate_loop_Cons:
  "evaluate_loop ops cfg a ds (i # rest) acc w =
     (let data = fst (get_batch (bptt cfg) ds i);
          targets = snd (get_batch (bptt cfg) ds i);
          output = fst (call_model ops False a data w)
      in evaluate_loop ops cfg a ds rest
           (fadd acc (fmul_int (int (rows data)) (criterion ops output targets)))
           (snd (call_model ops False a data w)))"
  by (simp add: split_def Let_def)

lemma evaluate_loop_invariant:
  assumes "P w"
    and step: "\<And>v data. P v \<Longrightarrow> P (snd (call_model ops False a data v))"
  shows "P (snd (evaluate_loop ops cfg a ds starts acc w))"
  using assms(1)
proof (induction starts arbitrary: acc w)
  case Nil
  then show ?case by simp
next
  case (Cons i starts)
  show ?case
    unfolding evaluate_loop_Cons Let_def
    by (rule Cons.IH) (rule step [OF Cons.prems])
qed

section \<open>Evaluation\<close>

lemma py_range_pos:
  "0 < step \<Longrightarrow> py_range 0 stop step
     = Inr (map (\<lambda>k. int k * step) [0..<nat ((stop + step - 1) div step)])"
  by (simp add: py_range_def)

lemma mult_le_iff_le_div:
  assumes "0 < (W::int)"
  shows "K * W \<le> X \<longleftrightarrow> K \<le> X div W"
proof
  assume "K * W \<le> X"
  then have "(K * W) div W \<le> X div W" using assms by (intro zdiv_mono1) simp_all
  then show "K \<le> X div W" using assms by simp
next
  assume "K \<le> X div W"
  then have "K * W \<le> (X div W) * W" using assms by (intro mult_right_mono) simp_all
  also have "\<dots> \<le> X"
  proof -
    have "X = (X div W) * W + X mod W" by simp
    moreover have "0 \<le> X mod W" using assms by simp
    ultimately show ?thesis by linarith
  qed
  finally show "K * W \<le> X" .
qed

lemma window_count_bound:
  assumes "0 < (W::int)"
  shows "k < nat ((S + W - 1) div W) \<longleftrightarrow> int k * W < S"
proof -
  have "int k * W < S \<longleftrightarrow> int k * W \<le> S - 1" by auto
  also have "\<dots> \<longleftrightarrow> int k \<le> (S - 1) div W"
    using assms by (rule mult_le_iff_le_div)
  also have "\<dots> \<longleftrightarrow> int k < (S - 1) div W + 1" by auto
  also have "(S - 1) div W + 1 = (S - 1 + W) div W"
    using assms by simp
  also have "S - 1 + W = S + W - 1" by simp
  finally show ?thesis by auto
qed

lemma py_range_pos_set:
  assumes "0 < step" "py_range 0 stop step = Inr starts"
  shows "i \<in> set starts \<longleftrightarrow> 0 \<le> i \<and> i < stop \<and> i mod step = 0"
proof -
  have s: "starts = map (\<lambda>k. int k * step) [0..<nat ((stop + step - 1) div step)]"
    using assms by (simp add: py_range_pos)
  show ?thesis
  proof
    assume "i \<in> set starts"
    then obtain k where k: "k < nat ((stop + step - 1) div step)" "i = int k * step"
      unfolding s by auto
    then have "int k * step < stop" using assms(1) by (simp add: window_count_bound)
    then show "0 \<le> i \<and> i < stop \<and> i mod step = 0" using k assms(1) by simp
  next
    assume a: "0 \<le> i \<and> i < stop \<and> i mod step = 0"
    define k where "k = nat (i div step)"
    have "0 \<le> i div step" using a assms(1) by (simp add: pos_imp_zdiv_nonneg_iff)
    then have ik: "int k = i div step" by (simp add: k_def)
    have i: "i = int k * step" using a ik by (metis add.right_neutral div_mult_mod_eq)
    then have "k < nat ((stop + step - 1) div step)"
      using a assms(1) by (simp add: window_count_bound)
    then show "i \<in> set starts" unfolding s using i by auto
  qed
qed

lemma py_range_pos_sorted:
  assumes "0 < step" "py_range 0 stop step = Inr starts"
  shows "sorted_wrt (<) starts"
proof -
  have s: "starts = map (\<lambda>k. int k * step) [0..<nat ((stop + step - 1) div step)]"
    using assms by (simp add: py_range_pos)
  show ?thesis
    unfolding s using assms(1) by (simp add: sorted_wrt_map sorted_wrt_upt)
qed


lemma window_loss_cong:
  "params s' = params s \<Longrightarrow> pe s' = pe s \<Longrightarrow>
     window_loss ops cfg ds s' g i = window_loss ops cfg ds s g i"
  by (simp add: window_loss_def split_def mask_independent_of_self [of s' _ s])

lemma eval_window_loss:
  assumes "\<not> training (heap w a)" "mask_cache_valid (heap w a)"
  shows "criterion ops (fst (call_model ops False a (fst (get_batch (bptt cfg) ds i)) w))
           (snd (get_batch (bptt cfg) ds i))
         = window_loss ops cfg ds (heap w a) (rng w) i"
proof -
  define data where "data = fst (get_batch (bptt cfg) ds i)"
  define self1 where "self1 = snd (forward ops False (rng w) (heap w a) data)"
  have m: "src_mask self1 = Some (generate_square_subsequent_mask (heap w a) (rows data))"
    unfolding self1_def using assms(2) by (rule forward_mask_exact)
  have f: "fst (forward ops False (rng w) (heap w a) data)
           = net ops (params self1) (pe self1) (training self1) False (rng w)
               (the (src_mask self1)) data"
    by (simp add: forward_def Let_def self1_def)
  have "fst (call_model ops False a data w)
        = net ops (params (heap w a)) (pe (heap w a)) False False (rng w)
            (generate_square_subsequent_mask (heap w a) (rows data)) data"
    unfolding call_model_fst f m using assms(1) by (simp add: self1_def)
  then show ?thesis
    by (simp add: window_loss_def split_def Let_def data_def)
qed

lemma evaluate_loop_total:
  assumes "\<not> training (heap w a)" "mask_cache_valid (heap w a)"
  shows "fst (evaluate_loop ops cfg a ds starts acc w)
         = foldl fadd acc
             (map (\<lambda>i. fmul_int (int (window_len cfg ds i))
                          (window_loss ops cfg ds (heap w a) (rng w) i)) starts)"
  using assms
proof (induction starts arbitrary: acc w)
  case Nil
  then show ?case by simp
next
  case (Cons i starts)
  define data where "data = fst (get_batch (bptt cfg) ds i)"
  define w1 where "w1 = snd (call_model ops False a data w)"
  have t: "\<not> training (heap w1 a)" using Cons.prems(1) by (simp add: w1_def)
  have v: "mask_cache_valid (heap w1 a)"
    unfolding w1_def using Cons.prems(2) by (rule call_model_mask_valid)
  have g: "rng w1 = rng w" unfolding w1_def using Cons.prems(1) by (rule call_model_rng_eval)
  have wl: "window_loss ops cfg ds (heap w1 a) (rng w1) j = window_loss ops cfg ds (heap w a) (rng w) j"
    for j unfolding g by (rule window_loss_cong) (simp_all add: w1_def)
  have hd: "criterion ops (fst (call_model ops False a (fst (get_batch (bptt cfg) ds i)) w))
              (snd (get_batch (bptt cfg) ds i))
            = window_loss ops cfg ds (heap w a) (rng w) i"
    using Cons.prems by (rule eval_window_loss)
  show ?case
    unfolding evaluate_loop_Cons Let_def data_def [symmetric] w1_def [symmetric]
    by (simp add: Cons.IH [OF t v] wl hd window_len_def data_def)
qed

lemma evaluate_loop_frame:
  "model (snd (evaluate_loop ops cfg a ds starts acc w)) = model w"
  "lr (snd (evaluate_loop ops cfg a ds starts acc w)) = lr w"
  "best_val_loss (snd (evaluate_loop ops cfg a ds starts acc w)) = best_val_loss w"
  "best_model (snd (evaluate_loop ops cfg a ds starts acc w)) = best_model w"
  "printed (snd (evaluate_loop ops cfg a ds starts acc w)) = printed w"
  "params (heap (snd (evaluate_loop ops cfg a ds starts acc w)) b) = params (heap w b)"
  "pe (heap (snd (evaluate_loop ops cfg a ds starts acc w)) b) = pe (heap w b)"
  "training (heap (snd (evaluate_loop ops cfg a ds starts acc w)) b) = training (heap w b)"
proof -
  let ?w' = "snd (evaluate_loop ops cfg a ds starts acc w)"
  show "model ?w' = model w"
    by (rule evaluate_loop_invariant [where P = "\<lambda>v. model v = model w"]) simp_all
  show "lr ?w' = lr w"
    by (rule evaluate_loop_invariant [where P = "\<lambda>v. lr v = lr w"]) simp_all
  show "best_val_loss ?w' = best_val_loss w"
    by (rule evaluate_loop_invariant [where P = "\<lambda>v. best_val_loss v = best_val_loss w"]) simp_all
  show "best_model ?w' = best_model w"
    by (rule evaluate_loop_invariant [where P = "\<lambda>v. best_model v = best_model w"]) simp_all
  show "printed ?w' = printed w"
    by (rule evaluate_loop_invariant [where P = "\<lambda>v. printed v = printed w"]) simp_all
  show "params (heap ?w' b) = params (heap w b)"
    by (rule evaluate_loop_invariant [where P = "\<lambda>v. params (heap v b) = params (heap w b)"])
      simp_all
  show "pe (heap ?w' b) = pe (heap w b)"
    by (rule evaluate_loop_invariant [where P = "\<lambda>v. pe (heap v b) = pe (heap w b)"]) simp_all
  show "training (heap ?w' b) = training (heap w b)"
    by (rule evaluate_loop_invariant [where P = "\<lambda>v. training (heap v b) = training (heap w b)"])
      simp_all
qed

lemma evaluate_loop_mask_valid:
  "mask_cache_valid (heap w b) \<Longrightarrow>
     mask_cache_valid (heap (snd (evaluate_loop ops cfg a ds starts acc w)) b)"
  by (rule evaluate_loop_invariant [where P = "\<lambda>v. mask_cache_valid (heap v b)"])
    (simp_all add: call_model_mask_valid)

lemma evaluate_loop_rng:
  assumes "\<not> training (heap w a)"
  shows "rng (snd (evaluate_loop ops cfg a ds starts acc w)) = rng w"
proof -
  have "\<not> training (heap (snd (evaluate_loop ops cfg a ds starts acc w)) a)
        \<and> rng (snd (evaluate_loop ops cfg a ds starts acc w)) = rng w"
    by (rule evaluate_loop_invariant [where P = "\<lambda>v. \<not> training (heap v a) \<and> rng v = rng w"])
      (simp_all add: assms call_model_rng_eval)
  then show ?thesis by simp
qed

text \<open>\<^verbatim>\<open>evaluate\<close> written out, for a model reference and a positive \<^verbatim>\<open>bptt\<close>.\<close>

lemma evaluate_unfold:
  assumes "0 < bptt cfg" "py_range 0 (int (rows ds) - 1) (bptt cfg) = Inr starts"
  shows "evaluate ops cfg (Some a) ds w =
     (let r = evaluate_loop ops cfg a ds starts (Fin 0) (set_training a False w) in
      if int (rows ds) - 1 = 0 then Inl (ZeroDivisionError, printed (snd r))
      else Inr (fdiv_int (fst r) (int (rows ds) - 1), snd r))"
  using assms by (simp add: evaluate_def Let_def split_def py_truediv_def)


lemma window_len_in_range:
  assumes "0 \<le> i" "i < int (rows ds) - 1" "0 \<le> bptt cfg"
  shows "window_len cfg ds i = nat (min (bptt cfg) (int (rows ds) - 1 - i))"
proof -
  define n where "n = nat (min (bptt cfg) (int (rows ds) - 1 - i))"
  have i: "i = int (nat i)" using assms(1) by simp
  have b: "nat i + 1 + n \<le> rows ds" using assms by (simp add: n_def)
  have "get_batch (bptt cfg) ds (int (nat i)) =
     (\<lparr>rows = n, cols = cols ds,
        elems = take (n * cols ds) (drop (nat i * cols ds) (elems ds))\<rparr>,
      take (n * cols ds) (drop ((nat i + 1) * cols ds) (elems ds)))"
    using b _ assms(3) by (rule get_batch_nat) (use assms(1) in \<open>simp add: n_def\<close>)
  then show ?thesis
    unfolding window_len_def n_def [symmetric] by (subst i) simp
qed

lemma window_step_arith:
  "0 < (W::int) \<Longrightarrow> 0 \<le> S \<Longrightarrow> 0 \<le> X \<Longrightarrow>
     nat (min S X) + nat (min W (S - X)) = nat (min S (X + W))"
  by arith

lemma sum_window_lens:
  assumes "0 < W" "0 \<le> S"
  shows "sum_list (map (\<lambda>k. nat (min W (S - int k * W))) [0..<n]) = nat (min S (int n * W))"
proof (induction n)
  case 0
  then show ?case using assms by simp
next
  case (Suc n)
  have d: "int (Suc n) * W = int n * W + W" by (simp add: algebra_simps)
  have nn: "0 \<le> int n * W" using assms(1) by simp
  have "sum_list (map (\<lambda>k. nat (min W (S - int k * W))) [0..<Suc n])
        = nat (min S (int n * W)) + nat (min W (S - int n * W))"
    using Suc by simp
  also have "\<dots> = nat (min S (int n * W + W))"
    using assms nn by (rule window_step_arith)
  finally show ?case unfolding d .
qed

lemma sum_window_len_starts:
  assumes "2 \<le> rows ds" "0 < bptt cfg"
    and "py_range 0 (int (rows ds) - 1) (bptt cfg) = Inr starts"
  shows "sum_list (map (window_len cfg ds) starts) = rows ds - 1"
proof -
  define W where "W = bptt cfg"
  define S where "S = int (rows ds) - 1"
  define n where "n = nat ((S + W - 1) div W)"
  have W: "0 < W" and S: "0 \<le> S" using assms by (simp_all add: W_def S_def)
  have s: "starts = map (\<lambda>k. int k * W) [0..<n]"
    using assms(3) W by (simp add: py_range_pos W_def S_def n_def)
  have len: "window_len cfg ds (int k * W) = nat (min W (S - int k * W))" if "k < n" for k
  proof -
    have "int k * W < S" using that W by (simp add: n_def window_count_bound)
    then show ?thesis
      unfolding W_def S_def using W by (intro window_len_in_range) (simp_all add: W_def)
  qed
  have "map (window_len cfg ds) starts = map (\<lambda>k. nat (min W (S - int k * W))) [0..<n]"
    unfolding s by (simp add: len)
  then have "sum_list (map (window_len cfg ds) starts) = nat (min S (int n * W))"
    using sum_window_lens [OF W S] by simp
  moreover have "\<not> int n * W < S"
    using window_count_bound [OF W, of n S] by (simp add: n_def)
  ultimately show ?thesis by (simp add: S_def min_def)
qed

lemma foldl_fadd_fin:
  "\<forall>x \<in> set xs. \<exists>l. x = Fin l \<Longrightarrow> foldl fadd (Fin c) xs = Fin (c + sum_list (map fin_val xs))"
proof (induction xs arbitrary: c)
  case Nil
  then show ?case by simp
next
  case (Cons x xs)
  then obtain l where "x = Fin l" by auto
  with Cons show ?case by (simp add: add.assoc)
qed

text \<open>
  Claim C7. For a data matrix with \<open>T \<ge> 2\<close> rows (and the positive \<^verbatim>\<open>bptt\<close> of the script, on a
  model object whose cached mask is the generated one), \<^verbatim>\<open>evaluate\<close> returns. It visits the
  windows in increasing order of their starts, which are exactly the multiples of \<^verbatim>\<open>bptt\<close>
  below \<open>T - 1\<close>; the window lengths add up to \<open>T - 1\<close>. Each window's loss is computed in
  evaluation mode with the gradient mode off (\<open>window_loss\<close>). The result is the float sum,
  accumulated from \<open>0.\<close> in that order, of window length times window loss, divided by
  \<open>T - 1\<close>; when all the losses are finite this is the real number
  \<open>(\<Sum> length * loss) / (T - 1)\<close>. No parameter and no buffer of any model object changes,
  and neither do the learning rate, the random generator, the globals or the output.
\<close>

theorem evaluate_weighted_mean:
  assumes "2 \<le> rows ds" and "0 < bptt cfg" and "mask_cache_valid (heap w a)"
  shows "\<exists>starts w'.
      py_range 0 (int (rows ds) - 1) (bptt cfg) = Inr starts
    \<and> sorted_wrt (<) starts
    \<and> (\<forall>i. i \<in> set starts \<longleftrightarrow> 0 \<le> i \<and> i < int (rows ds) - 1 \<and> i mod bptt cfg = 0)
    \<and> (\<forall>i \<in> set starts. window_len cfg ds i = nat (min (bptt cfg) (int (rows ds) - 1 - i)))
    \<and> sum_list (map (window_len cfg ds) starts) = rows ds - 1
    \<and> evaluate ops cfg (Some a) ds w =
         Inr (fdiv_int
                (foldl fadd (Fin 0)
                   (map (\<lambda>i. fmul_int (int (window_len cfg ds i))
                                (window_loss ops cfg ds (heap w a) (rng w) i)) starts))
                (int (rows ds) - 1), w')
    \<and> ((\<forall>i \<in> set starts. \<exists>l. window_loss ops cfg ds (heap w a) (rng w) i = Fin l) \<longrightarrow>
         evaluate ops cfg (Some a) ds w =
           Inr (Fin (sum_list
                       (map (\<lambda>i. real (window_len cfg ds i)
                                  * fin_val (window_loss ops cfg ds (heap w a) (rng w) i)) starts)
                     / (real (rows ds) - 1)), w'))
    \<and> (\<forall>b. params (heap w' b) = params (heap w b) \<and> pe (heap w' b) = pe (heap w b))
    \<and> lr w' = lr w \<and> rng w' = rng w \<and> model w' = model w
    \<and> best_val_loss w' = best_val_loss w \<and> best_model w' = best_model w
    \<and> printed w' = printed w"
proof -
  define W where "W = bptt cfg"
  define starts where "starts = map (\<lambda>k. int k * W) [0..<nat ((int (rows ds) - 1 + W - 1) div W)]"
  define w0 where "w0 = set_training a False w"
  define w' where "w' = snd (evaluate_loop ops cfg a ds starts (Fin 0) w0)"
  define losses where "losses = map (\<lambda>i. fmul_int (int (window_len cfg ds i))
                                (window_loss ops cfg ds (heap w a) (rng w) i)) starts"
  have W: "0 < W" using assms(2) by (simp add: W_def)
  have r: "py_range 0 (int (rows ds) - 1) (bptt cfg) = Inr starts"
    using W by (simp add: py_range_pos starts_def W_def)
  have srt: "sorted_wrt (<) starts" using assms(2) r by (rule py_range_pos_sorted)
  have mem: "i \<in> set starts \<longleftrightarrow> 0 \<le> i \<and> i < int (rows ds) - 1 \<and> i mod bptt cfg = 0" for i
    using assms(2) r by (rule py_range_pos_set)
  have lens: "window_len cfg ds i = nat (min (bptt cfg) (int (rows ds) - 1 - i))"
    if "i \<in> set starts" for i
    using that assms(2) by (intro window_len_in_range) (simp_all add: mem)
  have total: "sum_list (map (window_len cfg ds) starts) = rows ds - 1"
    using assms(1,2) r by (rule sum_window_len_starts)
  have t0: "\<not> training (heap w0 a)" by (simp add: w0_def)
  have v0: "mask_cache_valid (heap w0 a)"
    unfolding w0_def using assms(3) by (rule set_training_mask_valid)
  have wl: "window_loss ops cfg ds (heap w0 a) (rng w0) i = window_loss ops cfg ds (heap w a) (rng w) i"
    for i
  proof -
    have "window_loss ops cfg ds (heap w0 a) (rng w) i = window_loss ops cfg ds (heap w a) (rng w) i"
      by (rule window_loss_cong) (simp_all add: w0_def)
    then show ?thesis by (simp add: w0_def)
  qed
  have f: "fst (evaluate_loop ops cfg a ds starts (Fin 0) w0) = foldl fadd (Fin 0) losses"
    unfolding losses_def using evaluate_loop_total [OF t0 v0, of ops cfg ds starts "Fin 0"]
    by (simp add: wl)
  have nz: "int (rows ds) - 1 \<noteq> 0" using assms(1) by simp
  have ev: "evaluate ops cfg (Some a) ds w = Inr (fdiv_int (foldl fadd (Fin 0) losses) (int (rows ds) - 1), w')"
    unfolding evaluate_unfold [OF assms(2) r] Let_def w0_def [symmetric] f w'_def [symmetric]
    using nz by simp
  have fin: "evaluate ops cfg (Some a) ds w =
           Inr (Fin (sum_list
                       (map (\<lambda>i. real (window_len cfg ds i)
                                  * fin_val (window_loss ops cfg ds (heap w a) (rng w) i)) starts)
                     / (real (rows ds) - 1)), w')"
    if a: "\<forall>i \<in> set starts. \<exists>l. window_loss ops cfg ds (heap w a) (rng w) i = Fin l"
  proof -
    have "\<forall>x \<in> set losses. \<exists>l. x = Fin l" using a by (auto simp: losses_def)
    then have "foldl fadd (Fin 0) losses = Fin (0 + sum_list (map fin_val losses))"
      by (rule foldl_fadd_fin)
    moreover have "map fin_val losses = map (\<lambda>i. real (window_len cfg ds i)
                                  * fin_val (window_loss ops cfg ds (heap w a) (rng w) i)) starts"
      unfolding losses_def using a by (auto simp: comp_def)
    moreover have "real_of_int (int (rows ds) - 1) = real (rows ds) - 1" by simp
    ultimately show ?thesis unfolding ev by simp
  qed
  have frame: "params (heap w' b) = params (heap w b) \<and> pe (heap w' b) = pe (heap w b)" for b
    by (simp add: w'_def evaluate_loop_frame w0_def)
  have globals: "lr w' = lr w" "model w' = model w" "best_val_loss w' = best_val_loss w"
    "best_model w' = best_model w" "printed w' = printed w"
    by (simp_all add: w'_def evaluate_loop_frame w0_def)
  have g: "rng w' = rng w"
    unfolding w'_def using evaluate_loop_rng [OF t0] by (simp add: w0_def)
  show ?thesis
    using r srt mem lens total ev [unfolded losses_def] fin frame globals g by blast
qed


lemma sum_list_scaled:
  "sum_list (map (\<lambda>i. real (f i) * c) xs) = real (sum_list (map f xs)) * c"
  by (induction xs) (simp_all add: algebra_simps)

theorem evaluate_weighted_mean_witness:
  "2 \<le> rows (val_data demo_cfg) \<and> 0 < bptt demo_cfg
   \<and> mask_cache_valid (heap (demo_world\<lparr>heap := \<lambda>a. demo_model\<lparr>params := 7\<rparr>\<rparr>) 0)
   \<and> (\<exists>w'. evaluate demo_ops demo_cfg (Some 0) (val_data demo_cfg)
              (demo_world\<lparr>heap := \<lambda>a. demo_model\<lparr>params := 7\<rparr>\<rparr>) = Inr (Fin 7, w')
          \<and> params (heap w' 0) = 7)"
proof -
  define w where "w = demo_world\<lparr>heap := \<lambda>a. demo_model\<lparr>params := 7\<rparr>\<rparr>"
  define ds where "ds = val_data demo_cfg"
  have h: "2 \<le> rows ds" "0 < bptt demo_cfg" "mask_cache_valid (heap w 0)"
    by (simp_all add: ds_def w_def demo_cfg_def demo_world_def demo_model_def mask_cache_valid_def)
  have loss: "window_loss demo_ops demo_cfg ds (heap w 0) g i = Fin 7" for g i
    by (simp add: window_loss_def split_def demo_ops_def w_def)
  obtain starts w' where
    total: "sum_list (map (window_len demo_cfg ds) starts) = rows ds - 1"
    and fin: "(\<forall>i \<in> set starts. \<exists>l. window_loss demo_ops demo_cfg ds (heap w 0) (rng w) i = Fin l) \<longrightarrow>
         evaluate demo_ops demo_cfg (Some 0) ds w =
           Inr (Fin (sum_list
                       (map (\<lambda>i. real (window_len demo_cfg ds i)
                                  * fin_val (window_loss demo_ops demo_cfg ds (heap w 0) (rng w) i)) starts)
                     / (real (rows ds) - 1)), w')"
    and frame: "\<forall>b. params (heap w' b) = params (heap w b) \<and> pe (heap w' b) = pe (heap w b)"
    using evaluate_weighted_mean [OF h, of demo_ops] by blast
  have r: "rows ds = 4" by (simp add: ds_def demo_cfg_def)
  have "sum_list (map (\<lambda>i. real (window_len demo_cfg ds i) * 7) starts) = 21"
    unfolding sum_list_scaled total r by simp
  then have "evaluate demo_ops demo_cfg (Some 0) ds w = Inr (Fin 7, w')"
    using fin by (simp add: loss r)
  moreover have "params (heap w' 0) = 7" using frame by (simp add: w_def)
  ultimately show ?thesis using h unfolding w_def ds_def by blast
qed

section \<open>Training and the loop over epochs\<close>

lemma train_loop_frame:
  assumes "train_loop ops cfg e ws acc w = Inr w'"
  shows "model w' = model w" "lr w' = lr w" "best_val_loss w' = best_val_loss w"
    "best_model w' = best_model w" "pe (heap w' b) = pe (heap w b)"
    "b \<noteq> model w \<Longrightarrow> params (heap w' b) = params (heap w b)"
proof -
  show "model w' = model w"
    by (rule train_loop_invariant [OF assms, where P = "\<lambda>v. model v = model w"]) simp_all
  show "lr w' = lr w"
    by (rule train_loop_invariant [OF assms, where P = "\<lambda>v. lr v = lr w"]) simp_all
  show "best_val_loss w' = best_val_loss w"
    by (rule train_loop_invariant [OF assms, where P = "\<lambda>v. best_val_loss v = best_val_loss w"])
      simp_all
  show "best_model w' = best_model w"
    by (rule train_loop_invariant [OF assms, where P = "\<lambda>v. best_model v = best_model w"])
      simp_all
  show "pe (heap w' b) = pe (heap w b)"
    by (rule train_loop_invariant [OF assms, where P = "\<lambda>v. pe (heap v b) = pe (heap w b)"])
      simp_all
  show "params (heap w' b) = params (heap w b)" if "b \<noteq> model w"
  proof -
    have "model w' = model w \<and> params (heap w' b) = params (heap w b)"
      by (rule train_loop_invariant [OF assms,
            where P = "\<lambda>v. model v = model w \<and> params (heap v b) = params (heap w b)"])
        (simp_all add: optimizer_step_params that)
    then show ?thesis by simp
  qed
qed

lemma optimizer_step_mask_valid:
  "mask_cache_valid (heap w b) \<Longrightarrow> mask_cache_valid (heap (optimizer_step ops out tg w) b)"
  by (simp add: mask_cache_valid_cong [of "heap (optimizer_step ops out tg w) b" "heap w b"])

lemma print_mask_valid:
  "mask_cache_valid (heap w b) \<Longrightarrow> mask_cache_valid (heap (w\<lparr>printed := x\<rparr>) b)"
  by simp

lemma train_loop_mask_valid:
  assumes "train_loop ops cfg e ws acc w = Inr w'" "mask_cache_valid (heap w b)"
  shows "mask_cache_valid (heap w' b)"
  by (rule train_loop_invariant [OF assms(1), where P = "\<lambda>v. mask_cache_valid (heap v b)"])
    (simp_all add: assms(2) optimizer_step_mask_valid call_model_mask_valid)


text \<open>
  Fewer than 201 windows: no batch index is a positive multiple of 200, so the loop prints
  nothing and returns.
\<close>

lemma train_loop_short:
  assumes "\<forall>(b, i) \<in> set ws. b < 200"
  shows "\<exists>w'. train_loop ops cfg e ws acc w = Inr w' \<and> printed w' = printed w"
  using assms
proof (induction ws arbitrary: acc w)
  case Nil
  then show ?case by simp
next
  case (Cons x ws)
  obtain batch i where x: "x = (batch, i)" by (cases x)
  have "batch < 200" using Cons.prems by (simp add: x)
  then have b: "(int batch mod 200 = 0 \<and> 0 < batch) = False" by auto
  have tl: "\<forall>(b, i) \<in> set ws. b < 200" using Cons.prems by simp
  define data where "data = fst (get_batch (bptt cfg) (train_data cfg) i)"
  define targets where "targets = snd (get_batch (bptt cfg) (train_data cfg) i)"
  define out where "out = fst (call_model ops True (model w) data w)"
  define w2 where "w2 = optimizer_step ops out targets (snd (call_model ops True (model w) data w))"
  have p2: "printed w2 = printed w" by (simp add: w2_def)
  have "train_loop ops cfg e (x # ws) acc w
        = train_loop ops cfg e ws (fadd acc (criterion ops out targets)) w2"
    unfolding x train_loop_Cons Let_def data_def [symmetric] targets_def [symmetric]
      out_def [symmetric] w2_def [symmetric]
    by (simp only: b if_False)
  then show ?case using Cons.IH [OF tl, of "fadd acc (criterion ops out targets)" w2] p2 by simp
qed

lemma train_unfold:
  assumes "py_range 0 (int (rows (train_data cfg)) - 1) (bptt cfg) = Inr starts"
  shows "train ops cfg e w
         = train_loop ops cfg e (enumerate 0 starts) (Fin 0) (set_training (model w) True w)"
  using assms by (simp add: train_def Let_def)

lemma train_Inr_range:
  assumes "train ops cfg e w = Inr w'"
  obtains starts where "py_range 0 (int (rows (train_data cfg)) - 1) (bptt cfg) = Inr starts"
    "train_loop ops cfg e (enumerate 0 starts) (Fin 0) (set_training (model w) True w) = Inr w'"
  using assms by (auto simp: train_def Let_def split: sum.splits)

lemma train_frame:
  assumes "train ops cfg e w = Inr w'"
  shows "model w' = model w" "lr w' = lr w" "best_val_loss w' = best_val_loss w"
    "best_model w' = best_model w" "pe (heap w' b) = pe (heap w b)"
    "b \<noteq> model w \<Longrightarrow> params (heap w' b) = params (heap w b)"
proof -
  from assms obtain starts where
    l: "train_loop ops cfg e (enumerate 0 starts) (Fin 0) (set_training (model w) True w) = Inr w'"
    by (rule train_Inr_range)
  show "model w' = model w" "lr w' = lr w" "best_val_loss w' = best_val_loss w"
    "best_model w' = best_model w" "pe (heap w' b) = pe (heap w b)"
    using train_loop_frame(1-5) [OF l] by simp_all
  show "params (heap w' b) = params (heap w b)" if "b \<noteq> model w"
    using train_loop_frame(6) [OF l, of b] that by simp
qed

lemma train_mask_valid:
  assumes "train ops cfg e w = Inr w'" "mask_cache_valid (heap w b)"
  shows "mask_cache_valid (heap w' b)"
proof -
  from assms(1) obtain starts where
    l: "train_loop ops cfg e (enumerate 0 starts) (Fin 0) (set_training (model w) True w) = Inr w'"
    by (rule train_Inr_range)
  show ?thesis
    using l by (rule train_loop_mask_valid) (rule set_training_mask_valid [OF assms(2)])
qed


lemma train_short:
  assumes "py_range 0 (int (rows (train_data cfg)) - 1) (bptt cfg) = Inr starts"
    and "length starts \<le> 200"
  shows "\<exists>w'. train ops cfg e w = Inr w' \<and> printed w' = printed w"
proof -
  have "\<forall>(b, i) \<in> set (enumerate 0 starts). b < 200"
    using assms(2) by (auto simp: in_set_enumerate_eq)
  from train_loop_short [OF this, of ops cfg e "Fin 0" "set_training (model w) True w"]
  show ?thesis by (simp add: train_unfold [OF assms(1)])
qed

lemma evaluate_Inr:
  assumes "evaluate ops cfg (Some a) ds w = Inr (v, w')"
  obtains starts where "py_range 0 (int (rows ds) - 1) (bptt cfg) = Inr starts"
    "int (rows ds) - 1 \<noteq> 0"
    "v = fdiv_int (fst (evaluate_loop ops cfg a ds starts (Fin 0) (set_training a False w)))
           (int (rows ds) - 1)"
    "w' = snd (evaluate_loop ops cfg a ds starts (Fin 0) (set_training a False w))"
  using assms
  by (auto simp: evaluate_def Let_def split_def py_truediv_def split: sum.splits if_splits)

lemma evaluate_frame:
  assumes "evaluate ops cfg (Some a) ds w = Inr (v, w')"
  shows "model w' = model w" "lr w' = lr w" "best_val_loss w' = best_val_loss w"
    "best_model w' = best_model w" "printed w' = printed w"
    "params (heap w' b) = params (heap w b)" "pe (heap w' b) = pe (heap w b)"
proof -
  from assms obtain starts where
    "w' = snd (evaluate_loop ops cfg a ds starts (Fin 0) (set_training a False w))"
    by (rule evaluate_Inr)
  then show "model w' = model w" "lr w' = lr w" "best_val_loss w' = best_val_loss w"
    "best_model w' = best_model w" "printed w' = printed w"
    "params (heap w' b) = params (heap w b)" "pe (heap w' b) = pe (heap w b)"
    by (simp_all add: evaluate_loop_frame)
qed

lemma evaluate_mask_valid:
  assumes "evaluate ops cfg (Some a) ds w = Inr (v, w')" "mask_cache_valid (heap w b)"
  shows "mask_cache_valid (heap w' b)"
proof -
  from assms(1) obtain starts where
    "w' = snd (evaluate_loop ops cfg a ds starts (Fin 0) (set_training a False w))"
    by (rule evaluate_Inr)
  then show ?thesis
    using assms(2) by (simp add: evaluate_loop_mask_valid set_training_mask_valid)
qed

lemma evaluate_succeeds:
  assumes "bptt cfg \<noteq> 0" "rows ds \<noteq> 1"
  shows "\<exists>v w'. evaluate ops cfg (Some a) ds w = Inr (v, w')"
proof -
  obtain starts where "py_range 0 (int (rows ds) - 1) (bptt cfg) = Inr starts"
    using assms(1) by (cases "0 < bptt cfg") (auto simp: py_range_def)
  moreover have "int (rows ds) - 1 \<noteq> 0" using assms(2) by simp
  ultimately show ?thesis
    by (simp add: evaluate_def Let_def split_def py_truediv_def)
qed

text \<open>One pass of the loop over epochs, when it returns.\<close>

lemma epoch_body_Inr:
  assumes "epoch_body ops cfg e w = Inr w'"
  obtains w1 v w2 p where "train ops cfg e w = Inr w1"
    "evaluate ops cfg (Some (model w1)) (val_data cfg) w1 = Inr (v, w2)"
    "math_exp v = Inr p"
    "printed w' = printed w2 @ [Dashes, EpochSummary e v p, Dashes]"
    "heap w' = heap w2" "model w' = model w2" "lr w' = lr w2 * gamma cfg"
    "if flt v (best_val_loss w2)
     then best_val_loss w' = v \<and> best_model w' = Some (model w2)
     else best_val_loss w' = best_val_loss w2 \<and> best_model w' = best_model w2"
proof -
  from assms obtain w1 v w2 p where
    t: "train ops cfg e w = Inr w1" and
    ev: "evaluate ops cfg (Some (model w1)) (val_data cfg) w1 = Inr (v, w2)" and
    p: "math_exp v = Inr p"
    by (auto simp: epoch_body_def split: sum.splits prod.splits)
  have w': "w' = scheduler_step cfg
            (if flt v (best_val_loss w2)
             then w2\<lparr>printed := printed w2 @ [Dashes, EpochSummary e v p, Dashes],
                     best_val_loss := v, best_model := Some (model w2)\<rparr>
             else w2\<lparr>printed := printed w2 @ [Dashes, EpochSummary e v p, Dashes]\<rparr>)"
    using assms t ev p by (auto simp: epoch_body_def Let_def)
  show ?thesis
    using t ev p by (rule that) (simp_all add: w' scheduler_step_def)
qed

lemma epoch_body_completes:
  assumes "train ops cfg e w = Inr w1"
    and "evaluate ops cfg (Some (model w1)) (val_data cfg) w1 = Inr (v, w2)"
    and "math_exp v = Inr p"
  shows "\<exists>w'. epoch_body ops cfg e w = Inr w'"
  using assms by (simp add: epoch_body_def Let_def)

lemma epoch_body_frame:
  assumes "epoch_body ops cfg e w = Inr w'"
  shows "model w' = model w" "lr w' = lr w * gamma cfg" "pe (heap w' b) = pe (heap w b)"
    "b \<noteq> model w \<Longrightarrow> params (heap w' b) = params (heap w b)"
proof -
  from assms obtain w1 v w2 where
    t: "train ops cfg e w = Inr w1" and
    ev: "evaluate ops cfg (Some (model w1)) (val_data cfg) w1 = Inr (v, w2)" and
    w': "heap w' = heap w2" "model w' = model w2" "lr w' = lr w2 * gamma cfg"
    by (rule epoch_body_Inr)
  show "model w' = model w" "lr w' = lr w * gamma cfg" "pe (heap w' b) = pe (heap w b)"
    using train_frame(1,2,5) [OF t] evaluate_frame(1,2,7) [OF ev] by (simp_all add: w')
  show "params (heap w' b) = params (heap w b)" if "b \<noteq> model w"
    using train_frame(6) [OF t that] evaluate_frame(6) [OF ev] by (simp add: w')
qed

lemma epoch_body_mask_valid:
  assumes "epoch_body ops cfg e w = Inr w'" "mask_cache_valid (heap w b)"
  shows "mask_cache_valid (heap w' b)"
proof -
  from assms(1) obtain w1 v w2 where
    t: "train ops cfg e w = Inr w1" and
    ev: "evaluate ops cfg (Some (model w1)) (val_data cfg) w1 = Inr (v, w2)" and
    w': "heap w' = heap w2"
    by (rule epoch_body_Inr)
  have "mask_cache_valid (heap w2 b)"
    using ev train_mask_valid [OF t assms(2)] by (rule evaluate_mask_valid)
  then show ?thesis by (simp add: w')
qed

lemma epoch_loop_append:
  "epoch_loop ops cfg (es @ es') w =
     (case epoch_loop ops cfg es w of Inl x \<Rightarrow> Inl x | Inr w1 \<Rightarrow> epoch_loop ops cfg es' w1)"
  by (induction es arbitrary: w) (simp_all split: sum.split)

lemma epoch_loop_invariant:
  assumes "epoch_loop ops cfg es w = Inr w'" and "P w"
    and step: "\<And>e v v'. P v \<Longrightarrow> epoch_body ops cfg e v = Inr v' \<Longrightarrow> P v'"
  shows "P w'"
  using assms(1,2)
proof (induction es arbitrary: w)
  case Nil
  then show ?case by simp
next
  case (Cons e es)
  from Cons.prems(1) obtain w1 where
    b: "epoch_body ops cfg e w = Inr w1" and l: "epoch_loop ops cfg es w1 = Inr w'"
    by (auto split: sum.splits)
  show ?case using l by (rule Cons.IH) (rule step [OF Cons.prems(2) b])
qed

lemma epoch_loop_frame:
  assumes "epoch_loop ops cfg es w = Inr w'"
  shows "model w' = model w" "pe (heap w' b) = pe (heap w b)"
    "b \<noteq> model w \<Longrightarrow> params (heap w' b) = params (heap w b)"
proof -
  show m: "model w' = model w"
    by (rule epoch_loop_invariant [OF assms, where P = "\<lambda>v. model v = model w"])
      (simp_all add: epoch_body_frame)
  show "pe (heap w' b) = pe (heap w b)"
    by (rule epoch_loop_invariant [OF assms, where P = "\<lambda>v. pe (heap v b) = pe (heap w b)"])
      (simp_all add: epoch_body_frame)
  show "params (heap w' b) = params (heap w b)" if "b \<noteq> model w"
  proof -
    have "model w' = model w \<and> params (heap w' b) = params (heap w b)"
      by (rule epoch_loop_invariant [OF assms,
            where P = "\<lambda>v. model v = model w \<and> params (heap v b) = params (heap w b)"])
        (simp_all add: epoch_body_frame that)
    then show ?thesis by simp
  qed
qed


section \<open>The range of \<^verbatim>\<open>math.exp\<close>\<close>

lemma float_max_ge: "2 ^ 200 \<le> float_max"
proof -
  have "(2::real) ^ 200 \<le> 2 ^ 971" by (rule power_increasing) simp_all
  also have "\<dots> = 1 * 2 ^ 971" by simp
  also have "\<dots> \<le> (2 ^ 53 - 1) * 2 ^ 971" by (rule mult_right_mono) simp_all
  finally show ?thesis by (simp only: float_max_def)
qed

lemma exp_100_le: "exp (100::real) \<le> float_max"
proof -
  have "exp (100::real) = exp (of_nat 100 * 1)" by simp
  also have "\<dots> = exp 1 ^ 100" by (rule exp_of_nat_mult)
  also have "\<dots> \<le> (3::real) ^ 100" by (rule power_mono) (simp_all add: exp_le)
  also have "\<dots> \<le> (4::real) ^ 100" by (rule power_mono) simp_all
  also have "\<dots> = (2 ^ 2) ^ 100" by simp
  also have "\<dots> = (2::real) ^ 200" by (simp only: power_mult [symmetric]) simp
  also note float_max_ge
  finally show ?thesis .
qed

lemma math_exp_small: "a \<le> 100 \<Longrightarrow> math_exp (Fin a) = Inr (Fin (exp a))"
proof -
  assume "a \<le> 100"
  then have "exp a \<le> exp 100" by simp
  then have "exp a \<le> float_max" using exp_100_le by (rule order_trans)
  then have "\<not> float_max < exp a" by (simp only: not_less)
  then show ?thesis by simp
qed

lemma float_max_less: "float_max < 2 ^ 1024"
proof -
  have "float_max < 2 ^ 53 * 2 ^ 971"
    unfolding float_max_def by (rule mult_strict_right_mono) simp_all
  also have "\<dots> = (2::real) ^ 1024" by (simp only: power_add [symmetric]) simp
  finally show ?thesis .
qed

lemma math_exp_large: "1024 \<le> a \<Longrightarrow> math_exp (Fin a) = Inl OverflowError"
proof -
  assume a: "1024 \<le> a"
  have "(2::real) \<le> exp 1" using exp_ge_add_one_self [of "1::real"] by simp
  then have "(2::real) ^ 1024 \<le> exp 1 ^ 1024" by (rule power_mono) simp
  also have "\<dots> = exp (of_nat 1024 * 1)" by (rule exp_of_nat_mult [symmetric])
  also have "\<dots> = exp (1024::real)" by simp
  also have "\<dots> \<le> exp a" using a by simp
  finally have "(2::real) ^ 1024 \<le> exp a" .
  with float_max_less have "float_max < exp a" by (rule less_le_trans)
  then show ?thesis by simp
qed

text \<open>
  A pass of the loop over epochs stops at the summary line, before the comparison with the
  best loss, when \<^verbatim>\<open>math.exp(val_loss)\<close> raises.
\<close>

lemma epoch_body_overflow:
  assumes "train ops cfg e w = Inr w1"
    and "evaluate ops cfg (Some (model w1)) (val_data cfg) w1 = Inr (Fin a, w2)"
    and "1024 \<le> a"
  shows "epoch_body ops cfg e w = Inl (OverflowError, printed w2 @ [Dashes])"
  using assms by (simp add: epoch_body_def math_exp_large del: math_exp.simps)

section \<open>The small instance worked out\<close>

lemma demo_net:
  "fst (call_model demo_ops grad a src w) = params (heap w a)"
  by (simp add: call_model_fst forward_def Let_def demo_ops_def split: option.split)

lemma demo_step:
  "params (heap (optimizer_step demo_ops out tg w) (model w)) = Suc (params (heap w (model w)))"
  by (simp add: optimizer_step_def demo_ops_def)

lemma demo_train_loop_params:
  "train_loop demo_ops cfg e ws acc w = Inr w' \<Longrightarrow>
     params (heap w' (model w)) = params (heap w (model w)) + length ws"
proof (induction ws arbitrary: acc w)
  case Nil
  then show ?case by simp
next
  case (Cons x ws)
  obtain batch i where x: "x = (batch, i)" by (cases x)
  define data where "data = fst (get_batch (bptt cfg) (train_data cfg) i)"
  define targets where "targets = snd (get_batch (bptt cfg) (train_data cfg) i)"
  define out where "out = fst (call_model demo_ops True (model w) data w)"
  define w1 where "w1 = snd (call_model demo_ops True (model w) data w)"
  define w2 where "w2 = optimizer_step demo_ops out targets w1"
  have m: "model w1 = model w" "model w2 = model w" by (simp_all add: w1_def w2_def)
  have "params (heap w2 (model w1)) = Suc (params (heap w1 (model w1)))"
    unfolding w2_def by (rule demo_step)
  then have p: "params (heap w2 (model w)) = Suc (params (heap w (model w)))"
    by (simp add: m) (simp add: w1_def)
  note unf = Cons.prems [unfolded x train_loop_Cons Let_def, folded data_def targets_def,
      folded out_def w1_def, folded w2_def]
  from unf obtain acc' y where "train_loop demo_ops cfg e ws acc' (w2\<lparr>printed := y\<rparr>) = Inr w'"
    by (auto split: if_splits sum.splits intro: that [of _ "printed w2"])
  from Cons.IH [OF this] show ?case by (simp add: m p)
qed

text \<open>A \<^verbatim>\<open>train\<close> call over at most 200 windows: one optimiser step per window, nothing printed.\<close>

lemma demo_train:
  assumes "py_range 0 (int (rows (train_data cfg)) - 1) (bptt cfg) = Inr starts"
    and "length starts \<le> 200"
  shows "\<exists>w1. train demo_ops cfg e w = Inr w1 \<and> printed w1 = printed w
           \<and> params (heap w1 (model w)) = params (heap w (model w)) + length starts"
proof -
  from train_short [OF assms] obtain w1 where
    t: "train demo_ops cfg e w = Inr w1" and p: "printed w1 = printed w"
    by blast
  have "train_loop demo_ops cfg e (enumerate 0 starts) (Fin 0) (set_training (model w) True w)
          = Inr w1"
    using t by (simp add: train_unfold [OF assms(1)])
  from demo_train_loop_params [OF this] t p show ?thesis by simp
qed

lemma demo_evaluate_loop:
  "fst (evaluate_loop demo_ops cfg a ds starts (Fin c) w)
     = Fin (c + real (sum_list (map (window_len cfg ds) starts)) * real (params (heap w a)))"
proof (induction starts arbitrary: c w)
  case Nil
  then show ?case by simp
next
  case (Cons i starts)
  define data where "data = fst (get_batch (bptt cfg) ds i)"
  define w1 where "w1 = snd (call_model demo_ops False a data w)"
  have p: "params (heap w1 a) = params (heap w a)" by (simp add: w1_def)
  have rd: "rows data = window_len cfg ds i" by (simp add: window_len_def data_def)
  have c: "criterion demo_ops out tg = Fin (real out)" for out tg by (simp add: demo_ops_def)
  have "fst (evaluate_loop demo_ops cfg a ds (i # starts) (Fin c) w)
        = fst (evaluate_loop demo_ops cfg a ds starts
                 (Fin (c + real (rows data) * real (params (heap w a)))) w1)"
    unfolding evaluate_loop_Cons Let_def data_def [symmetric] w1_def [symmetric]
    by (simp add: c demo_net)
  also have "\<dots> = Fin (c + real (rows data) * real (params (heap w a))
                   + real (sum_list (map (window_len cfg ds) starts)) * real (params (heap w a)))"
    by (simp only: Cons.IH p)
  finally show ?case by (simp add: rd algebra_simps)
qed

text \<open>The mean loss that \<^verbatim>\<open>evaluate\<close> returns on the instance is the counter of optimiser steps.\<close>

lemma demo_evaluate:
  assumes "0 < bptt cfg" "2 \<le> rows ds"
  shows "\<exists>w'. evaluate demo_ops cfg (Some a) ds w = Inr (Fin (real (params (heap w a))), w')"
proof -
  obtain starts where r: "py_range 0 (int (rows ds) - 1) (bptt cfg) = Inr starts"
    using assms(1) by (simp add: py_range_pos)
  define w0 where "w0 = set_training a False w"
  define R where "R = evaluate_loop demo_ops cfg a ds starts (Fin 0) w0"
  define k where "k = real (rows ds - 1)"
  define p where "p = real (params (heap w a))"
  have s: "sum_list (map (window_len cfg ds) starts) = rows ds - 1"
    using assms(2,1) r by (rule sum_window_len_starts)
  have p0: "real (params (heap w0 a)) = p" by (simp add: w0_def p_def)
  have "fst R = Fin (0 + real (rows ds - 1) * real (params (heap w0 a)))"
    unfolding R_def by (simp only: demo_evaluate_loop s)
  then have l: "fst R = Fin (k * p)" by (simp only: k_def [symmetric] p0 add_0)
  have k0: "k \<noteq> 0" using assms(2) by (simp add: k_def)
  have n: "(int (rows ds) - 1 = 0) = False" using assms(2) by simp
  have "int (rows ds) - 1 = int (rows ds - 1)" using assms(2) by simp
  then have ki: "real_of_int (int (rows ds) - 1) = k" by (simp only: k_def of_int_of_nat_eq)
  have "fdiv_int (fst R) (int (rows ds) - 1) = Fin (k * p / k)"
    by (simp only: l fdiv_int.simps ki)
  also have "k * p / k = p" using k0 by simp
  finally have v: "fdiv_int (fst R) (int (rows ds) - 1) = Fin p" .
  have "evaluate demo_ops cfg (Some a) ds w = Inr (fdiv_int (fst R) (int (rows ds) - 1), snd R)"
    unfolding R_def w0_def by (simp only: evaluate_unfold [OF assms(1) r] Let_def n if_False)
  then have "evaluate demo_ops cfg (Some a) ds w = Inr (Fin (real (params (heap w a))), snd R)"
    by (simp only: v p_def)
  then show ?thesis by (rule exI)
qed

lemma demo_evaluate_value:
  assumes "0 < bptt cfg" "2 \<le> rows ds" "evaluate demo_ops cfg (Some a) ds w = Inr (v, w')"
  shows "v = Fin (real (params (heap w a)))"
proof -
  from demo_evaluate [OF assms(1,2)] obtain w'' where
    "evaluate demo_ops cfg (Some a) ds w = Inr (Fin (real (params (heap w a))), w'')"
    by blast
  with assms(3) show ?thesis by simp
qed

text \<open>
  One pass of the loop over epochs on the instance, over \<open>n\<close> windows (at most 200): when
  the counter stays below 100 the summary line does not overflow and the pass returns.
\<close>

lemma demo_epoch_body_completes:
  assumes "0 < bptt cfg" "2 \<le> rows (val_data cfg)"
    and "py_range 0 (int (rows (train_data cfg)) - 1) (bptt cfg) = Inr starts"
    and "length starts \<le> 200" "params (heap w (model w)) + length starts \<le> 100"
  shows "\<exists>w'. epoch_body demo_ops cfg e w = Inr w'"
proof -
  from demo_train [OF assms(3,4)] obtain w1 where
    t: "train demo_ops cfg e w = Inr w1" and
    p: "params (heap w1 (model w)) = params (heap w (model w)) + length starts"
    by blast
  have m: "model w1 = model w" by (rule train_frame(1) [OF t])
  from demo_evaluate [OF assms(1,2)] obtain w2 where
    ev: "evaluate demo_ops cfg (Some (model w1)) (val_data cfg) w1
           = Inr (Fin (real (params (heap w1 (model w1)))), w2)"
    by blast
  have "real (params (heap w1 (model w1))) \<le> 100" using assms(5) by (simp add: m p)
  then have "math_exp (Fin (real (params (heap w1 (model w1)))))
               = Inr (Fin (exp (real (params (heap w1 (model w1))))))"
    by (rule math_exp_small)
  with t ev show ?thesis by (rule epoch_body_completes)
qed

lemma demo_epoch_body:
  assumes "0 < bptt cfg" "2 \<le> rows (val_data cfg)"
    and "py_range 0 (int (rows (train_data cfg)) - 1) (bptt cfg) = Inr starts"
    and "epoch_body demo_ops cfg e w = Inr w'"
  shows "model w' = model w"
    and "params (heap w' (model w)) = params (heap w (model w)) + length starts"
    and "flt (Fin (real (params (heap w (model w)) + length starts))) (best_val_loss w) \<Longrightarrow>
           best_val_loss w' = Fin (real (params (heap w (model w)) + length starts))
         \<and> best_model w' = Some (model w)"
    and "\<not> flt (Fin (real (params (heap w (model w)) + length starts))) (best_val_loss w) \<Longrightarrow>
           best_val_loss w' = best_val_loss w \<and> best_model w' = best_model w"
proof -
  from assms(4) obtain w1 v w2 where
    t: "train demo_ops cfg e w = Inr w1" and
    ev: "evaluate demo_ops cfg (Some (model w1)) (val_data cfg) w1 = Inr (v, w2)" and
    w': "heap w' = heap w2" "model w' = model w2" and
    upd: "if flt v (best_val_loss w2)
     then best_val_loss w' = v \<and> best_model w' = Some (model w2)
     else best_val_loss w' = best_val_loss w2 \<and> best_model w' = best_model w2"
    by (rule epoch_body_Inr)
  have m1: "model w1 = model w" by (rule train_frame(1) [OF t])
  have l: "train_loop demo_ops cfg e (enumerate 0 starts) (Fin 0) (set_training (model w) True w)
          = Inr w1"
    using t by (simp add: train_unfold [OF assms(3)])
  have p1: "params (heap w1 (model w)) = params (heap w (model w)) + length starts"
    using demo_train_loop_params [OF l] by simp
  have v: "v = Fin (real (params (heap w (model w)) + length starts))"
    using demo_evaluate_value [OF assms(1,2) ev] by (simp only: m1 p1)
  have f: "best_val_loss w2 = best_val_loss w" "best_model w2 = best_model w" "model w2 = model w"
    "params (heap w2 (model w)) = params (heap w (model w)) + length starts"
    using train_frame(3,4) [OF t] evaluate_frame(1,3,4,6) [OF ev] m1 p1 by simp_all
  show "model w' = model w" "params (heap w' (model w)) = params (heap w (model w)) + length starts"
    by (simp_all add: w' f)
  show "best_val_loss w' = Fin (real (params (heap w (model w)) + length starts))
         \<and> best_model w' = Some (model w)"
    if "flt (Fin (real (params (heap w (model w)) + length starts))) (best_val_loss w)"
    using upd that unfolding v f by simp
  show "best_val_loss w' = best_val_loss w \<and> best_model w' = best_model w"
    if "\<not> flt (Fin (real (params (heap w (model w)) + length starts))) (best_val_loss w)"
    using upd that unfolding v f by simp
qed

text \<open>The instance \<open>demo_cfg\<close>: three training windows, two validation windows.\<close>

lemma demo_cfg_facts:
  "0 < bptt demo_cfg" "2 \<le> rows (val_data demo_cfg)" "2 \<le> rows (test_data demo_cfg)"
  "py_range 0 (int (rows (train_data demo_cfg)) - 1) (bptt demo_cfg) = Inr [0, 2, 4]"
  by (simp_all add: demo_cfg_def py_range_def upt_rec)

section \<open>The learning rate\<close>






section \<open>The best model so far\<close>

lemma flt_PInf: "flt v PInf \<longleftrightarrow> v \<noteq> PInf \<and> v \<noteq> NaN"
  by (cases v) simp_all

lemma fadd_NaN [simp]: "fadd x NaN = NaN"
  by (cases x) simp_all

lemma evaluate_loop_nan:
  assumes "\<And>out tg. criterion ops out tg = NaN"
  shows "starts \<noteq> [] \<or> acc = NaN \<Longrightarrow> fst (evaluate_loop ops cfg a ds starts acc w) = NaN"
proof (induction starts arbitrary: acc w)
  case Nil
  then show ?case by simp
next
  case (Cons i starts)
  show ?case unfolding evaluate_loop_Cons Let_def by (rule Cons.IH) (simp add: assms)
qed

lemma evaluate_loop_fin:
  assumes "\<And>out tg. \<exists>l. criterion ops out tg = Fin l"
  shows "\<exists>l. acc = Fin l \<Longrightarrow> \<exists>l. fst (evaluate_loop ops cfg a ds starts acc w) = Fin l"
proof (induction starts arbitrary: acc w)
  case Nil
  then show ?case by simp
next
  case (Cons i starts)
  obtain c where c: "acc = Fin c" using Cons.prems by blast
  obtain l where l: "criterion ops (fst (call_model ops False a (fst (get_batch (bptt cfg) ds i)) w))
           (snd (get_batch (bptt cfg) ds i)) = Fin l"
    using assms by blast
  show ?case unfolding evaluate_loop_Cons Let_def by (rule Cons.IH) (simp add: c l)
qed

text \<open>
  Claim C6, as amended. Whenever a pass of the loop over epochs completes without raising
  -- \<^verbatim>\<open>train\<close> and \<^verbatim>\<open>evaluate\<close> return and \<^verbatim>\<open>math.exp(val_loss)\<close>, evaluated for the summary
  line before the comparison, does not overflow -- the best loss and the best-model
  reference are updated exactly when the validation loss of the epoch is strictly less, as
  floats, than the best loss so far, and are otherwise left as they were. In the first epoch
  the best loss so far is the initial \<open>+inf\<close>, so the model of a first epoch whose pass
  completes is recorded exactly when its validation loss is neither \<open>+inf\<close> nor \<open>nan\<close>.
  (A pass whose validation loss is finite but too large for \<^verbatim>\<open>math.exp\<close> stops at the
  summary line and reaches no update: lemma \<open>epoch_body_overflow\<close>.)
\<close>

theorem best_model_update:
  assumes "epoch_body ops cfg e w = Inr w'"
  shows "\<exists>w1 v w2 p.
      train ops cfg e w = Inr w1
    \<and> evaluate ops cfg (Some (model w1)) (val_data cfg) w1 = Inr (v, w2)
    \<and> math_exp v = Inr p
    \<and> (if flt v (best_val_loss w)
        then best_val_loss w' = v \<and> best_model w' = Some (model w)
        else best_val_loss w' = best_val_loss w \<and> best_model w' = best_model w)
    \<and> (best_val_loss w = PInf \<and> best_model w = None \<longrightarrow>
         (best_model w' = Some (model w) \<longleftrightarrow> v \<noteq> PInf \<and> v \<noteq> NaN))"
proof -
  from assms obtain w1 v w2 p where
    t: "train ops cfg e w = Inr w1" and
    ev: "evaluate ops cfg (Some (model w1)) (val_data cfg) w1 = Inr (v, w2)" and
    p: "math_exp v = Inr p" and
    u: "if flt v (best_val_loss w2)
        then best_val_loss w' = v \<and> best_model w' = Some (model w2)
        else best_val_loss w' = best_val_loss w2 \<and> best_model w' = best_model w2"
    by (rule epoch_body_Inr)
  have f: "best_val_loss w2 = best_val_loss w" "best_model w2 = best_model w" "model w2 = model w"
    using train_frame(1,3,4) [OF t] evaluate_frame(1,3,4) [OF ev] by simp_all
  have upd: "if flt v (best_val_loss w)
        then best_val_loss w' = v \<and> best_model w' = Some (model w)
        else best_val_loss w' = best_val_loss w \<and> best_model w' = best_model w"
    using u unfolding f .
  have first: "best_model w' = Some (model w) \<longleftrightarrow> v \<noteq> PInf \<and> v \<noteq> NaN"
    if "best_val_loss w = PInf \<and> best_model w = None"
    using upd that by (simp add: flt_PInf split: if_splits)
  show ?thesis using t ev p upd first by blast
qed

theorem best_model_update_witness:
  "\<exists>w'. epoch_body demo_ops demo_cfg 1 demo_world = Inr w'
        \<and> best_model w' = Some (model demo_world) \<and> (\<exists>l. best_val_loss w' = Fin l)"
proof -
  have n: "length [0::int, 2, 4] \<le> 200"
    "params (heap demo_world (model demo_world)) + length [0::int, 2, 4] \<le> 100"
    by (simp_all add: demo_world_def demo_model_def)
  obtain w' where w': "epoch_body demo_ops demo_cfg 1 demo_world = Inr w'"
    using demo_epoch_body_completes [OF demo_cfg_facts(1,2,4) n] by blast
  from best_model_update [OF w'] obtain w1 v w2 where
    ev: "evaluate demo_ops demo_cfg (Some (model w1)) (val_data demo_cfg) w1 = Inr (v, w2)" and
    upd: "if flt v (best_val_loss demo_world)
        then best_val_loss w' = v \<and> best_model w' = Some (model demo_world)
        else best_val_loss w' = best_val_loss demo_world \<and> best_model w' = best_model demo_world"
    by blast
  have v: "v = Fin (real (params (heap w1 (model w1))))"
    using demo_cfg_facts(1,2) ev by (rule demo_evaluate_value)
  have "flt v (best_val_loss demo_world)" by (simp add: v demo_world_def)
  with upd have "best_val_loss w' = v" "best_model w' = Some (model demo_world)" by simp_all
  with v w' show ?thesis by blast
qed

theorem first_epoch_not_recorded_counterexample:
  "\<exists>w'. epoch_body (demo_ops\<lparr>criterion := \<lambda>out tg. NaN\<rparr>) demo_cfg 1 demo_world = Inr w'
        \<and> best_val_loss demo_world = PInf \<and> best_model w' = None"
proof -
  define ops where "ops = demo_ops\<lparr>criterion := \<lambda>out tg. NaN\<rparr>"
  have c: "bptt demo_cfg \<noteq> 0" "rows (val_data demo_cfg) \<noteq> 1"
    by (simp_all add: demo_cfg_def)
  have n: "length [0::int, 2, 4] \<le> 200" by simp
  have nan: "v = NaN"
    if ev: "evaluate ops demo_cfg (Some a) (val_data demo_cfg) w = Inr (v, w2)" for a w v w2
  proof -
    from ev obtain starts where
      r: "py_range 0 (int (rows (val_data demo_cfg)) - 1) (bptt demo_cfg) = Inr starts" and
      v: "v = fdiv_int (fst (evaluate_loop ops demo_cfg a (val_data demo_cfg) starts (Fin 0)
                            (set_training a False w)))
             (int (rows (val_data demo_cfg)) - 1)"
      by (rule evaluate_Inr)
    have "starts \<noteq> []" using r by (auto simp: py_range_def demo_cfg_def)
    then have "fst (evaluate_loop ops demo_cfg a (val_data demo_cfg) starts (Fin 0)
                            (set_training a False w)) = NaN"
      by (intro evaluate_loop_nan) (simp_all add: ops_def)
    then show ?thesis using v by simp
  qed
  obtain w1 where t: "train ops demo_cfg 1 demo_world = Inr w1"
    using train_short [OF demo_cfg_facts(4) n] by blast
  obtain v w2 where ev: "evaluate ops demo_cfg (Some (model w1)) (val_data demo_cfg) w1 = Inr (v, w2)"
    using evaluate_succeeds [OF c] by blast
  have "math_exp v = Inr NaN" using nan [OF ev] by simp
  with t ev obtain w' where b: "epoch_body ops demo_cfg 1 demo_world = Inr w'"
    using epoch_body_completes by blast
  from b obtain w1' v' w2' where
    t': "train ops demo_cfg 1 demo_world = Inr w1'" and
    ev': "evaluate ops demo_cfg (Some (model w1')) (val_data demo_cfg) w1' = Inr (v', w2')" and
    u: "if flt v' (best_val_loss w2')
        then best_val_loss w' = v' \<and> best_model w' = Some (model w2')
        else best_val_loss w' = best_val_loss w2' \<and> best_model w' = best_model w2'"
    by (rule epoch_body_Inr)
  have "best_model w2' = None"
    using train_frame(4) [OF t'] evaluate_frame(4) [OF ev'] by (simp add: demo_world_def)
  moreover have "\<not> flt v' (best_val_loss w2')" using nan [OF ev'] by simp
  ultimately have "best_model w' = None" using u by simp
  moreover have "best_val_loss demo_world = PInf" by (simp add: demo_world_def)
  ultimately show ?thesis using b unfolding ops_def by blast
qed
section \<open>The end-to-end scenario\<close>


lemma all_reports_count:
  assumes "\<forall>l \<in> set new. \<exists>b n c p. l = WindowReport e b n r c p"
  shows "length (filter is_window_report new) = length new"
    and "filter is_epoch_summary new = []"
proof -
  have "\<forall>l \<in> set new. is_window_report l \<and> \<not> is_epoch_summary l" using assms by auto
  then show "length (filter is_window_report new) = length new"
    and "filter is_epoch_summary new = []"
    by (simp_all add: filter_empty_conv)
qed










section \<open>The recorded best model is the live model\<close>

lemma best_model_reference:
  assumes "epoch_loop ops cfg es w = Inr w'" "best_model w = None \<or> best_model w = Some (model w)"
  shows "best_model w' = None \<or> best_model w' = Some (model w)"
proof -
  have "model w' = model w \<and> (best_model w' = None \<or> best_model w' = Some (model w))"
  proof (rule epoch_loop_invariant [OF assms(1),
        where P = "\<lambda>v. model v = model w \<and> (best_model v = None \<or> best_model v = Some (model w))"])
    show "model w = model w \<and> (best_model w = None \<or> best_model w = Some (model w))"
      using assms(2) by simp
  next
    fix e v v'
    assume P: "model v = model w \<and> (best_model v = None \<or> best_model v = Some (model w))"
      and b: "epoch_body ops cfg e v = Inr v'"
    from b obtain w1 x w2 where
      t: "train ops cfg e v = Inr w1" and
      ev: "evaluate ops cfg (Some (model w1)) (val_data cfg) w1 = Inr (x, w2)" and
      m: "model v' = model w2" and
      u: "if flt x (best_val_loss w2)
          then best_val_loss v' = x \<and> best_model v' = Some (model w2)
          else best_val_loss v' = best_val_loss w2 \<and> best_model v' = best_model w2"
      by (rule epoch_body_Inr)
    have f: "model w2 = model v" "best_model w2 = best_model v"
      using train_frame(1,4) [OF t] evaluate_frame(1,4) [OF ev] by simp_all
    have "best_model v' = Some (model v) \<or> best_model v' = best_model v"
      using u unfolding f by (simp split: if_splits)
    then show "model v' = model w \<and> (best_model v' = None \<or> best_model v' = Some (model w))"
      using P m f by auto
  qed
  then show ?thesis by simp
qed

lemma epoch_body_params:
  assumes "epoch_body ops cfg e w = Inr w'" "train ops cfg e w = Inr w1"
  shows "params (heap w' b) = params (heap w1 b)"
proof -
  from assms(1) obtain w1' v w2 where
    t: "train ops cfg e w = Inr w1'" and
    ev: "evaluate ops cfg (Some (model w1')) (val_data cfg) w1' = Inr (v, w2)" and
    w': "heap w' = heap w2"
    by (rule epoch_body_Inr)
  have "w1' = w1" using t assms(2) by simp
  then show ?thesis using evaluate_frame(6) [OF ev, of b] by (simp add: w')
qed

lemma upto_last: "1 \<le> n \<Longrightarrow> [1..n] = [1..n - 1] @ [n]"
  by (rule upto_rec2) simp

text \<open>
  Claim C10. \<^verbatim>\<open>best_model = model\<close> stores the reference held by \<^verbatim>\<open>model\<close>, not a copy of the
  object. After the loop over epochs, whenever a best model was recorded, the reference is
  the one \<^verbatim>\<open>model\<close> holds, and the parameters of the object it leads to are those left by
  the \<^verbatim>\<open>train\<close> call of the final epoch. The test evaluation of the script is therefore
  \<^verbatim>\<open>evaluate\<close> on that same object, with the final weights, also when an earlier epoch had
  the lowest validation loss.
\<close>

theorem best_model_is_final_model:
  assumes "1 \<le> epochs cfg"
    and "epoch_loop ops cfg [1..epochs cfg - 1] (w\<lparr>best_val_loss := PInf, best_model := None\<rparr>) = Inr wa"
    and "train ops cfg (epochs cfg) wa = Inr wb"
    and "epoch_loop ops cfg [1..epochs cfg] (w\<lparr>best_val_loss := PInf, best_model := None\<rparr>) = Inr w'"
    and "best_model w' = Some a"
  shows "a = model w
       \<and> params (heap w' a) = params (heap wb (model w))
       \<and> training_run ops cfg w =
           (case evaluate ops cfg (Some (model w)) (test_data cfg) w' of
              Inl x \<Rightarrow> Inl x
            | Inr (test_loss, w2) \<Rightarrow>
                (case math_exp test_loss of
                   Inl x \<Rightarrow> Inl (x, printed w2 @ [Equals])
                 | Inr ppl \<Rightarrow>
                     Inr (w2\<lparr>printed := printed w2 @
                            [Equals, TestSummary test_loss ppl, Equals]\<rparr>)))"
proof -
  define w0 where "w0 = w\<lparr>best_val_loss := PInf, best_model := None\<rparr>"
  have "best_model w' = None \<or> best_model w' = Some (model w0)"
    using assms(4) unfolding w0_def [symmetric] by (rule best_model_reference) (simp add: w0_def)
  then have a: "a = model w" using assms(5) by (simp add: w0_def)
  have "epoch_loop ops cfg ([1..epochs cfg - 1] @ [epochs cfg]) w0 = Inr w'"
    using assms(4) upto_last [OF assms(1)] by (simp add: w0_def)
  then have b: "epoch_body ops cfg (epochs cfg) wa = Inr w'"
    using assms(2) by (simp add: epoch_loop_append w0_def split: sum.splits)
  have p: "params (heap w' a) = params (heap wb (model w))"
    using epoch_body_params [OF b assms(3)] a by simp
  have r: "training_run ops cfg w =
           (case evaluate ops cfg (Some (model w)) (test_data cfg) w' of
              Inl x \<Rightarrow> Inl x
            | Inr (test_loss, w2) \<Rightarrow>
                (case math_exp test_loss of
                   Inl x \<Rightarrow> Inl (x, printed w2 @ [Equals])
                 | Inr ppl \<Rightarrow>
                     Inr (w2\<lparr>printed := printed w2 @
                            [Equals, TestSummary test_loss ppl, Equals]\<rparr>)))"
    using assms(4,5) a by (simp add: training_run_def Let_def)
  show ?thesis using a p r by blast
qed


theorem best_model_is_final_model_witness:
  "\<exists>wa wb w'.
      1 \<le> epochs demo_cfg
    \<and> epoch_loop demo_ops demo_cfg [1..epochs demo_cfg - 1]
        (demo_world\<lparr>best_val_loss := PInf, best_model := None\<rparr>) = Inr wa
    \<and> train demo_ops demo_cfg (epochs demo_cfg) wa = Inr wb
    \<and> epoch_loop demo_ops demo_cfg [1..epochs demo_cfg]
        (demo_world\<lparr>best_val_loss := PInf, best_model := None\<rparr>) = Inr w'
    \<and> best_model w' = Some 0
    \<and> params (heap wa 0) = 3 \<and> best_val_loss w' = Fin 3
    \<and> params (heap wb 0) = 6 \<and> params (heap w' 0) = 6"
proof -
  define w0 where "w0 = demo_world\<lparr>best_val_loss := PInf, best_model := None\<rparr>"
  note c = demo_cfg_facts(1,2,4)
  have E: "epochs demo_cfg = 2" by (simp add: demo_cfg_def)
  have one: "1 \<le> epochs demo_cfg" by (simp add: E)
  have l: "length [0::int, 2, 4] \<le> 200" by simp
  have w0: "model w0 = 0" "params (heap w0 0) = 0" "best_val_loss w0 = PInf"
    by (simp_all add: w0_def demo_world_def demo_model_def)
  have n0: "params (heap w0 (model w0)) + length [0::int, 2, 4] \<le> 100" by (simp add: w0)
  obtain wa where b1: "epoch_body demo_ops demo_cfg 1 w0 = Inr wa"
    using demo_epoch_body_completes [OF c l n0] by blast
  then have wa: "epoch_loop demo_ops demo_cfg [1..epochs demo_cfg - 1] w0 = Inr wa"
    by (simp add: E)
  have a1: "model wa = 0" "params (heap wa 0) = 3"
    using demo_epoch_body(1,2) [OF c b1] w0 by simp_all
  have a2: "best_val_loss wa = Fin 3" "best_model wa = Some 0"
    using demo_epoch_body(3) [OF c b1] w0 by simp_all
  obtain wb where wb: "train demo_ops demo_cfg (epochs demo_cfg) wa = Inr wb"
    and "params (heap wb (model wa)) = params (heap wa (model wa)) + length [0::int, 2, 4]"
    using demo_train [OF c(3) l] by blast
  then have pb: "params (heap wb 0) = 6" using a1 by simp
  have na: "params (heap wa (model wa)) + length [0::int, 2, 4] \<le> 100" by (simp add: a1)
  obtain w' where b2: "epoch_body demo_ops demo_cfg 2 wa = Inr w'"
    using demo_epoch_body_completes [OF c l na] by blast
  have "epoch_loop demo_ops demo_cfg ([1..epochs demo_cfg - 1] @ [epochs demo_cfg]) w0 = Inr w'"
    using b1 b2 by (simp add: E)
  then have w': "epoch_loop demo_ops demo_cfg [1..epochs demo_cfg] w0 = Inr w'"
    by (simp only: upto_last [OF one, symmetric])
  have a3: "best_val_loss w' = Fin 3" "best_model w' = Some 0"
    using demo_epoch_body(4) [OF c b2] a1 a2 by simp_all
  have "params (heap w' 0) = params (heap wb (model demo_world))"
    using best_model_is_final_model [OF one wa [unfolded w0_def] wb w' [unfolded w0_def] a3(2)]
    by simp
  then have "params (heap w' 0) = 6" using pb by (simp add: demo_world_def)
  then show ?thesis
    using one wa wb w' a3 a1(2) pb unfolding w0_def by blast
qed
section \<open>The positional encoding table\<close>

lemma arange_unit:
  "length (arange 0 n 1) = n" "p < n \<Longrightarrow> arange 0 n 1 ! p = p"
  "length (arange 0 n (Suc 0)) = n" "p < n \<Longrightarrow> arange 0 n (Suc 0) ! p = p"
  by (simp_all add: arange_def)

lemma arange_even:
  "length (arange 0 d 2) = (d + 1) div 2"
  "i < (d + 1) div 2 \<Longrightarrow> arange 0 d 2 ! i = 2 * i"
  by (simp_all add: arange_def)

lemma positional_init_even:
  assumes "even d" "0 < d"
  shows "\<exists>table. PositionalEncoding_init d max_len = Inr table
           \<and> rows table = max_len \<and> cols table = d
           \<and> (\<forall>p < max_len. \<forall>i < d div 2.
                 entry table p (2 * i) = sin (real p * exp (real (2 * i) * (- ln 10000 / real d)))
               \<and> entry table p (2 * i + 1) = cos (real p * exp (real (2 * i) * (- ln 10000 / real d))))"
proof -
  define position where "position = map real (arange 0 max_len 1)"
  define div_term where "div_term = map (\<lambda>k. exp (real k * (- ln 10000 / real d))) (arange 0 d 2)"
  define pe0 :: "real tensor" where "pe0 = tabulate max_len d (\<lambda>p j. 0)"
  define pe1 where "pe1 = tabulate max_len d
                    (\<lambda>p j. if even j then sin (position ! p * div_term ! (j div 2)) else entry pe0 p j)"
  define pe2 where "pe2 = tabulate max_len d
                    (\<lambda>p j. if odd j then cos (position ! p * div_term ! (j div 2)) else entry pe1 p j)"
  have half: "(d + 1) div 2 = d div 2" using assms(1) by (auto elim: evenE)
  have c1: "(d = 0) = False" using assms(2) by simp
  have "length div_term = d div 2" unfolding div_term_def length_map arange_even(1) by (rule half)
  then have c2: "(length div_term \<noteq> d div 2 \<and> length div_term \<noteq> 1) = False"
    by simp
  have init: "PositionalEncoding_init d max_len = Inr pe2"
    unfolding PositionalEncoding_init_def Let_def position_def [symmetric] div_term_def [symmetric]
      pe0_def [symmetric] pe1_def [symmetric] pe2_def [symmetric]
    by (simp only: c1 c2 if_False)
  have sh: "rows pe2 = max_len" "cols pe2 = d" by (simp_all add: pe2_def)
  have ent: "entry pe2 p (2 * i) = sin (real p * exp (real (2 * i) * (- ln 10000 / real d)))
           \<and> entry pe2 p (2 * i + 1) = cos (real p * exp (real (2 * i) * (- ln 10000 / real d)))"
    if "p < max_len" "i < d div 2" for p i
  proof -
    have j: "2 * i < d" "2 * i + 1 < d" using assms(1) that(2) by (auto elim: evenE)
    have pos: "position ! p = real p" using that(1) by (simp add: position_def arange_unit)
    have "i < (d + 1) div 2" using that(2) by (simp only: half)
    then have "arange 0 d 2 ! i = 2 * i" "i < length (arange 0 d 2)"
      by (simp_all only: arange_even)
    then have dv: "div_term ! i = exp (real (2 * i) * (- ln 10000 / real d))"
      unfolding div_term_def by simp
    have hv: "(2 * i) div 2 = i" "(2 * i + 1) div 2 = i" by simp_all
    have "entry pe2 p (2 * i) = entry pe1 p (2 * i)"
      unfolding pe2_def using that(1) j(1) by (simp add: entry_tabulate)
    also have "\<dots> = sin (position ! p * div_term ! ((2 * i) div 2))"
      unfolding pe1_def using that(1) j(1) by (simp add: entry_tabulate)
    finally have a: "entry pe2 p (2 * i) = sin (real p * exp (real (2 * i) * (- ln 10000 / real d)))"
      by (simp only: hv pos dv)
    have "entry pe2 p (2 * i + 1) = cos (position ! p * div_term ! ((2 * i + 1) div 2))"
      unfolding pe2_def using that(1) j(2) by (simp add: entry_tabulate)
    then have "entry pe2 p (2 * i + 1) = cos (real p * exp (real (2 * i) * (- ln 10000 / real d)))"
      by (simp only: hv pos dv)
    with a show ?thesis by simp
  qed
  have all: "\<forall>p < max_len. \<forall>i < d div 2.
                 entry pe2 p (2 * i) = sin (real p * exp (real (2 * i) * (- ln 10000 / real d)))
               \<and> entry pe2 p (2 * i + 1) = cos (real p * exp (real (2 * i) * (- ln 10000 / real d)))"
    using ent by (intro allI impI)
  show ?thesis
    by (rule exI [of _ pe2]) (intro conjI init sh all)
qed

lemma evaluate_None: "evaluate ops cfg None ds w = Inl (AttributeError, printed w)"
  by (simp add: evaluate_def)

lemma training_run_pe:
  assumes "training_run ops cfg w = Inr w'"
  shows "pe (heap w' b) = pe (heap w b)"
proof -
  define w0 where "w0 = w\<lparr>best_val_loss := PInf, best_model := None\<rparr>"
  obtain w1 where l: "epoch_loop ops cfg [1..epochs cfg] w0 = Inr w1"
    using assms by (auto simp: training_run_def Let_def w0_def split: sum.splits)
  obtain v w2 where ev: "evaluate ops cfg (best_model w1) (test_data cfg) w1 = Inr (v, w2)"
    and w': "heap w' = heap w2"
    using assms l by (auto simp: training_run_def Let_def w0_def split: sum.splits prod.splits)
  obtain a where a: "best_model w1 = Some a"
    using ev by (cases "best_model w1") (simp_all add: evaluate_None)
  show ?thesis
    using epoch_loop_frame(2) [OF l, of b] evaluate_frame(7) [OF ev [unfolded a], of b]
    by (simp add: w' w0_def)
qed


text \<open>
  Claim C9. For an even \<^verbatim>\<open>d_model\<close>, a position \<open>p\<close> below \<^verbatim>\<open>max_len\<close> and a frequency index
  \<open>i\<close> below \<open>d_model div 2\<close>, the constructor returns a table of shape \<open>(max_len, d_model)\<close>
  with \<open>table[p, 2i] = sin (p * div)\<close> and \<open>table[p, 2i+1] = cos (p * div)\<close>, where
  \<open>div = exp (- ln 10000 * 2i / d_model)\<close>; so the squares of the two entries add up to 1
  (exactly, the entries being reals). The table is built once, by the constructor of the
  model, and never changed afterwards: not by \<^verbatim>\<open>forward\<close>, and not by a whole training run.
\<close>

theorem positional_table:
  assumes "even d" "p < max_len" "i < d div 2"
  shows "\<exists>table. PositionalEncoding_init d max_len = Inr table
     \<and> rows table = max_len \<and> cols table = d
     \<and> entry table p (2 * i) = sin (real p * exp (- ln 10000 * real (2 * i) / real d))
     \<and> entry table p (2 * i + 1) = cos (real p * exp (- ln 10000 * real (2 * i) / real d))
     \<and> (entry table p (2 * i))\<^sup>2 + (entry table p (2 * i + 1))\<^sup>2 = 1
     \<and> (\<forall>(layers :: error + 'p) m. TransformerModel_init layers d = Inr m \<longrightarrow>
           PositionalEncoding_init d 5000 = Inr (pe m))
     \<and> (\<forall>(ops :: ('p, 'o, 'r) torch) grad g self src.
           pe (snd (forward ops grad g self src)) = pe self)
     \<and> (\<forall>(ops :: ('p, 'o, 'r) torch) cfg w w' b.
           training_run ops cfg w = Inr w' \<longrightarrow> pe (heap w' b) = pe (heap w b))"
proof -
  have d: "0 < d" using assms(3) by (cases d) simp_all
  obtain table where t: "PositionalEncoding_init d max_len = Inr table"
    and sh: "rows table = max_len" "cols table = d"
    and ent: "\<forall>p < max_len. \<forall>i < d div 2.
                 entry table p (2 * i) = sin (real p * exp (real (2 * i) * (- ln 10000 / real d)))
               \<and> entry table p (2 * i + 1) = cos (real p * exp (real (2 * i) * (- ln 10000 / real d)))"
    using positional_init_even [OF assms(1) d, of max_len] by blast
  have arg: "real (2 * i) * (- ln 10000 / real d) = - ln 10000 * real (2 * i) / real d"
    by simp
  have e: "entry table p (2 * i) = sin (real p * exp (- ln 10000 * real (2 * i) / real d))"
    "entry table p (2 * i + 1) = cos (real p * exp (- ln 10000 * real (2 * i) / real d))"
    using ent [rule_format, OF assms(2,3)] unfolding arg by simp_all
  have sq: "(entry table p (2 * i))\<^sup>2 + (entry table p (2 * i + 1))\<^sup>2 = 1"
    unfolding e by (rule sin_cos_squared_add)
  have built: "PositionalEncoding_init d 5000 = Inr (pe m)"
    if "TransformerModel_init layers d = Inr m" for layers :: "error + 'p" and m
    using that by (auto simp: TransformerModel_init_def split: sum.splits)
  have fw: "pe (snd (forward ops grad g self src)) = pe self"
    for ops :: "('p, 'o, 'r) torch" and grad g self src
    by simp
  have run: "pe (heap w' b) = pe (heap w b)" if "training_run ops cfg w = Inr w'"
    for ops :: "('p, 'o, 'r) torch" and cfg w w' b
    using that by (rule training_run_pe)
  have frame: "(\<forall>(layers :: error + 'p) m. TransformerModel_init layers d = Inr m \<longrightarrow>
           PositionalEncoding_init d 5000 = Inr (pe m))
     \<and> (\<forall>(ops :: ('p, 'o, 'r) torch) grad g self src.
           pe (snd (forward ops grad g self src)) = pe self)
     \<and> (\<forall>(ops :: ('p, 'o, 'r) torch) cfg w w' b.
           training_run ops cfg w = Inr w' \<longrightarrow> pe (heap w' b) = pe (heap w b))"
    using built fw run by (intro conjI allI impI)
  show ?thesis
    by (rule exI [of _ table]) (intro conjI t sh e sq frame [THEN conjunct1]
        frame [THEN conjunct2, THEN conjunct1] frame [THEN conjunct2, THEN conjunct2])
qed


theorem positional_table_witness:
  "even (4::nat) \<and> (1::nat) < 3 \<and> (1::nat) < 4 div 2
   \<and> (\<exists>table. PositionalEncoding_init 4 3 = Inr table
        \<and> rows table = 3 \<and> cols table = 4
        \<and> entry table 1 (2 * 1) = sin (real 1 * exp (- ln 10000 * real (2 * 1) / real 4))
        \<and> entry table 1 (2 * 1 + 1) = cos (real 1 * exp (- ln 10000 * real (2 * 1) / real 4))
        \<and> (entry table 1 (2 * 1))\<^sup>2 + (entry table 1 (2 * 1 + 1))\<^sup>2 = 1)"
proof -
  have h: "even (4::nat)" "(1::nat) < 3" "(1::nat) < 4 div 2" by simp_all
  from positional_table [OF h] obtain table where
    t: "PositionalEncoding_init 4 3 = Inr table" "rows table = 3" "cols table = 4" and
    e1: "entry table 1 (2 * 1) = sin (real 1 * exp (- ln 10000 * real (2 * 1) / real 4))" and
    e2: "entry table 1 (2 * 1 + 1) = cos (real 1 * exp (- ln 10000 * real (2 * 1) / real 4))" and
    sq: "(entry table 1 (2 * 1))\<^sup>2 + (entry table 1 (2 * 1 + 1))\<^sup>2 = 1"
    by (elim exE conjE)
  show ?thesis by (intro conjI exI [of _ table] h t e1 e2 sq)
qed

end
